theory Spec2Isabelle
  imports Complex_Main
begin

section \<open>Bootcamp Rally: race time model and race settlement\<close>

text \<open>
  The development follows the three source files: \<^verbatim>\<open>streamlit_app.py\<close> (the race
  time model and the race page), \<^verbatim>\<open>rally_data_access.py\<close> (the SQL statements) and
  \<^verbatim>\<open>snowflake_db.py\<close> (execute, execute_many and the Transaction scope).

  The race time model is given twice: over the exact real numbers (the arithmetic the
  code writes down) and in double precision, where every operation rounds its result
  as Python's floats do. Budgets are SQL numbers and are exact. Exceptions are values of
  the type \<open>error\<close>.
\<close>

datatype error =
    ZeroDivisionError
  | ValueError
  | TypeError
  | KeyError
  | IndexError
  | DatabaseError
  | NoCarsAvailable

subsection \<open>The race time model (streamlit\_app.py, simulate\_time\_minutes)\<close>

text \<open>Python's float division raises on a zero divisor.\<close>

definition py_truediv :: "real \<Rightarrow> real \<Rightarrow> error + real" where
  "py_truediv x y = (if y = 0 then Inl ZeroDivisionError else Inr (x / y))"

text \<open>
  Python's \<^verbatim>\<open>round(x, n)\<close> rounds to the nearest multiple of \<open>10^(-n)\<close>, a value
  exactly halfway going to the even neighbour.
\<close>

definition round_half_even :: "real \<Rightarrow> int" where
  "round_half_even x =
     (let f = \<lfloor>x\<rfloor>; d = x - of_int f
      in if d < 1 / 2 then f
         else if 1 / 2 < d then f + 1
         else if even f then f else f + 1)"

definition py_round :: "real \<Rightarrow> nat \<Rightarrow> real" where
  "py_round x ndigits = of_int (round_half_even (x * 10 ^ ndigits)) / 10 ^ ndigits"

text \<open>
  \<^verbatim>\<open>random.uniform(a, b)\<close> is \<^verbatim>\<open>a + (b - a) * random()\<close>; the draw \<open>u\<close> of
  \<^verbatim>\<open>random()\<close>, a number of the interval from 0 to 1, is an explicit argument.
\<close>

definition random_uniform :: "real \<Rightarrow> real \<Rightarrow> real \<Rightarrow> real" where
  "random_uniform a b u = a + (b - a) * u"

definition simulate_time_minutes ::
  "real \<Rightarrow> real \<Rightarrow> real \<Rightarrow> real \<Rightarrow> real \<times> real \<Rightarrow> real \<Rightarrow> real \<Rightarrow> error + real" where
  "simulate_time_minutes speed_kmh durability acceleration track_factor variability
       distance_km u =
     (let perf_d = 0.5 + 0.5 * max 0 (min 1 durability);
          perf_a = 0.5 + 0.5 * max 0 (min 1 acceleration);
          rand = random_uniform (fst variability) (snd variability) u;
          eff_speed = speed_kmh * perf_d * perf_a * rand * track_factor;
          eff_speed' = max 50 eff_speed
      in case py_truediv distance_km eff_speed' of
           Inl e \<Rightarrow> Inl e
         | Inr time_hours \<Rightarrow> Inr (py_round (time_hours * 60) 3))"

text \<open>The defaults of the two keyword arguments.\<close>

definition default_variability :: "real \<times> real" where
  "default_variability = (0.95, 1.05)"

definition default_distance_km :: real where
  "default_distance_km = 100"

text \<open>
  The formula as the specification words it: durability and acceleration clamped to the
  interval from 0 to 1, the effective speed floored at 50, the time rounded to three
  decimals.
\<close>

definition clamp01 :: "real \<Rightarrow> real" where
  "clamp01 x = (if x < 0 then 0 else if 1 < x then 1 else x)"

definition perf :: "real \<Rightarrow> real" where
  "perf x = 0.5 + 0.5 * clamp01 x"

definition spec_effective_speed :: "real \<Rightarrow> real \<Rightarrow> real \<Rightarrow> real \<Rightarrow> real \<Rightarrow> real" where
  "spec_effective_speed speed durability acceleration rand track_factor =
     (let e = speed * perf durability * perf acceleration * rand * track_factor
      in if e < 50 then 50 else e)"

definition spec_time_minutes :: "real \<Rightarrow> real \<Rightarrow> real \<Rightarrow> real \<Rightarrow> real \<Rightarrow> real \<Rightarrow> real" where
  "spec_time_minutes speed durability acceleration rand track_factor distance_km =
     py_round (60 * distance_km
                / spec_effective_speed speed durability acceleration rand track_factor) 3"

subsection \<open>The race time model in double precision\<close>

text \<open>
  Python's floats are IEEE 754 binary64 numbers. \<open>to_double x\<close> is \<open>x\<close> rounded to
  the nearest number with a significand of 53 bits, a tie going to the even
  significand: \<open>ulp_search\<close> scales \<open>\<bar>x\<bar>\<close> into the interval from \<open>2^52\<close> to
  \<open>2^53\<close> and returns the unit in the last place. The exponent is not bounded (no
  overflow to infinity and no subnormal numbers); 1100 steps of the search reach every
  normal double.
\<close>

fun ulp_search :: "nat \<Rightarrow> real \<Rightarrow> real \<Rightarrow> real" where
  "ulp_search 0 a u = u"
| "ulp_search (Suc n) a u =
     (if a < 2 ^ 52 then ulp_search n (2 * a) (u / 2)
      else if 2 ^ 53 \<le> a then ulp_search n (a / 2) (2 * u)
      else u)"

definition to_double :: "real \<Rightarrow> real" where
  "to_double x =
     (if x = 0 then 0
      else (let u = ulp_search 1100 \<bar>x\<bar> 1 in u * of_int (round_half_even (x / u))))"

text \<open>
  The function again, each operation rounded. \<^verbatim>\<open>round(x, 3)\<close> rounds the exact value
  of the double \<open>x\<close> to three decimals, half to even, and returns the nearest double.
\<close>

definition py_truediv_double :: "real \<Rightarrow> real \<Rightarrow> error + real" where
  "py_truediv_double x y = (if y = 0 then Inl ZeroDivisionError else Inr (to_double (x / y)))"

definition py_round_double :: "real \<Rightarrow> nat \<Rightarrow> real" where
  "py_round_double x ndigits =
     to_double (of_int (round_half_even (x * 10 ^ ndigits)) / 10 ^ ndigits)"

definition random_uniform_double :: "real \<Rightarrow> real \<Rightarrow> real \<Rightarrow> real" where
  "random_uniform_double a b u = to_double (a + to_double (to_double (b - a) * u))"

definition simulate_time_minutes_double ::
  "real \<Rightarrow> real \<Rightarrow> real \<Rightarrow> real \<Rightarrow> real \<times> real \<Rightarrow> real \<Rightarrow> real \<Rightarrow> error + real" where
  "simulate_time_minutes_double speed_kmh durability acceleration track_factor variability
       distance_km u =
     (let perf_d = to_double (0.5 + to_double (0.5 * max 0 (min 1 durability)));
          perf_a = to_double (0.5 + to_double (0.5 * max 0 (min 1 acceleration)));
          rand = random_uniform_double (fst variability) (snd variability) u;
          eff_speed = to_double (to_double (to_double (to_double (speed_kmh * perf_d) * perf_a)
                                   * rand) * track_factor);
          eff_speed' = max 50 eff_speed
      in case py_truediv_double distance_km eff_speed' of
           Inl e \<Rightarrow> Inl e
         | Inr time_hours \<Rightarrow> Inr (py_round_double (to_double (time_hours * 60)) 3))"

text \<open>
  The formula of the specification in double precision, \<open>60 * distance_km\<close> divided
  by the effective speed, and the same with the operations in the order of the code:
  the quotient in hours first, then times 60.
\<close>

definition perf_double :: "real \<Rightarrow> real" where
  "perf_double x = to_double (0.5 + to_double (0.5 * clamp01 x))"

definition spec_effective_speed_double :: "real \<Rightarrow> real \<Rightarrow> real \<Rightarrow> real \<Rightarrow> real \<Rightarrow> real" where
  "spec_effective_speed_double speed durability acceleration rand track_factor =
     (let e = to_double (to_double (to_double (to_double (speed * perf_double durability)
                           * perf_double acceleration) * rand) * track_factor)
      in if e < 50 then 50 else e)"

definition spec_time_minutes_double :: "real \<Rightarrow> real \<Rightarrow> real \<Rightarrow> real \<Rightarrow> real \<Rightarrow> real \<Rightarrow> real" where
  "spec_time_minutes_double speed durability acceleration rand track_factor distance_km =
     py_round_double
       (to_double (to_double (60 * distance_km)
          / spec_effective_speed_double speed durability acceleration rand track_factor)) 3"

definition hours_to_minutes_double :: "real \<Rightarrow> real \<Rightarrow> real \<Rightarrow> real \<Rightarrow> real \<Rightarrow> real \<Rightarrow> real" where
  "hours_to_minutes_double speed durability acceleration rand track_factor distance_km =
     py_round_double
       (to_double (to_double (distance_km
          / spec_effective_speed_double speed durability acceleration rand track_factor) * 60)) 3"

subsection \<open>The database (tables of rally\_data\_access.py)\<close>

text \<open>
  One record per table row, with the columns the SQL statements name. A table is the
  list of its rows. The owning team of a car may be NULL. The identifier that the
  database gives to an inserted race is not fixed by the source (the schema is not part
  of it): \<open>RACE_ID_SEQ\<close> is the value the next inserted race row receives.
\<close>

record team_row =
  TEAM_ID :: int
  TEAM_NAME :: string
  MEMBERS :: string
  BUDGET :: real

record car_row =
  CAR_ID :: int
  CAR_NAME :: string
  CAR_TEAM_ID :: "int option"
  SPEED :: real
  DURABILITY :: real
  ACCELERATION :: real

record race_row =
  RACE_ID :: int
  TRACK_NAME :: string
  WINNER_TEAM_ID :: "int option"

record result_row =
  RR_RACE_ID :: int
  RR_CAR_ID :: int
  TIME_TAKEN :: real
  POSITION :: int

record tables =
  TEAMS :: "team_row list"
  CARS :: "car_row list"
  RACES :: "race_row list"
  RACE_RESULTS :: "result_row list"
  RACE_ID_SEQ :: int

subsection \<open>The connection and the global flag (snowflake\_db.py)\<close>

text \<open>
  The connection is opened with autocommit off: a statement changes the session's view
  of the tables, \<open>commit\<close> makes that view the committed one and \<open>rollback\<close> returns
  to the committed one. Every call into the driver (execute, executemany, commit,
  rollback) may raise: \<open>faults\<close> lists, call by call, whether the next driver call
  fails; an exhausted list means that no further call fails. The Transaction objects
  created so far are numbered from 0, and \<open>transactions\<close> holds the attribute
  \<open>_prev\<close> of each. A computation takes the world and returns its result or the
  exception raised, with the world it leaves.
\<close>

record world =
  committed :: tables
  session :: tables
  IN_TRANSACTION :: bool
  faults :: "bool list"
  transactions :: "bool list"

type_synonym 'a io = "world \<Rightarrow> (error + 'a) \<times> world"

definition returns :: "'a \<Rightarrow> 'a io" where
  "returns a w = (Inr a, w)"

definition raises :: "error \<Rightarrow> 'a io" where
  "raises e w = (Inl e, w)"

definition and_then :: "'a io \<Rightarrow> ('a \<Rightarrow> 'b io) \<Rightarrow> 'b io" where
  "and_then m f w = (case m w of (Inl e, w') \<Rightarrow> (Inl e, w') | (Inr a, w') \<Rightarrow> f a w')"

definition driver_fails :: "world \<Rightarrow> bool" where
  "driver_fails w = (case faults w of [] \<Rightarrow> False | b # _ \<Rightarrow> b)"

definition driver_called :: "world \<Rightarrow> world" where
  "driver_called w = w\<lparr>faults := tl (faults w)\<rparr>"

definition cursor_execute :: "(tables \<Rightarrow> 'a \<times> tables) \<Rightarrow> 'a io" where
  "cursor_execute stmt w =
     (if driver_fails w then (Inl DatabaseError, driver_called w)
      else case stmt (session w) of (a, t) \<Rightarrow> (Inr a, (driver_called w)\<lparr>session := t\<rparr>))"

definition conn_commit :: "unit io" where
  "conn_commit w =
     (if driver_fails w then (Inl DatabaseError, driver_called w)
      else (Inr (), (driver_called w)\<lparr>committed := session w\<rparr>))"

definition conn_rollback :: "unit io" where
  "conn_rollback w =
     (if driver_fails w then (Inl DatabaseError, driver_called w)
      else (Inr (), (driver_called w)\<lparr>session := committed w\<rparr>))"

text \<open>A statement run once per parameter tuple; the row counts add up.\<close>

fun run_many :: "('p \<Rightarrow> tables \<Rightarrow> int \<times> tables) \<Rightarrow> 'p list \<Rightarrow> tables \<Rightarrow> int \<times> tables" where
  "run_many stmt [] t = (0, t)"
| "run_many stmt (p # ps) t =
     (case stmt p t of (n, t') \<Rightarrow>
        (case run_many stmt ps t' of (m, t'') \<Rightarrow> (n + m, t'')))"

definition fetch_all :: "(tables \<Rightarrow> 'a list) \<Rightarrow> 'a list io" where
  "fetch_all query = cursor_execute (\<lambda>t. (query t, t))"

definition fetch_one_value :: "(tables \<Rightarrow> 'a option) \<Rightarrow> 'a option io" where
  "fetch_one_value query = cursor_execute (\<lambda>t. (query t, t))"

definition execute :: "(tables \<Rightarrow> int \<times> tables) \<Rightarrow> int io" where
  "execute sql =
     and_then (cursor_execute sql) (\<lambda>rowcount w.
       if \<not> IN_TRANSACTION w then and_then conn_commit (\<lambda>_. returns rowcount) w
       else returns rowcount w)"

definition execute_many :: "('p \<Rightarrow> tables \<Rightarrow> int \<times> tables) \<Rightarrow> 'p list \<Rightarrow> int io" where
  "execute_many sql many_params =
     and_then (cursor_execute (run_many sql many_params)) (\<lambda>rowcount w.
       if \<not> IN_TRANSACTION w then and_then conn_commit (\<lambda>_. returns rowcount) w
       else returns rowcount w)"

text \<open>
  The Transaction scope. \<open>transaction\<close> is the factory \<^verbatim>\<open>transaction(conn)\<close>: it
  creates a Transaction object, whose \<^verbatim>\<open>__init__\<close> sets \<open>_prev\<close> to False, and
  returns its number. \<open>transaction_enter\<close> is \<^verbatim>\<open>__enter__\<close>: it stores the flag's
  value in the object's \<open>_prev\<close> and sets the flag. \<open>transaction_exit\<close> is
  \<^verbatim>\<open>__exit__\<close>: commit when the body raised nothing, rollback otherwise, and in the
  \<^verbatim>\<open>finally\<close> clause the flag is set to the object's \<open>_prev\<close> whether or not commit
  or rollback raised. \<^verbatim>\<open>__exit__\<close> returns False, so \<open>with_transaction\<close> (the
  \<^verbatim>\<open>with\<close> statement on an existing object) hands the body's exception on, or the
  one that commit or rollback raised.
\<close>

definition transaction :: "nat io" where
  "transaction w = (Inr (length (transactions w)), w\<lparr>transactions := transactions w @ [False]\<rparr>)"

definition transaction_enter :: "nat \<Rightarrow> world \<Rightarrow> world" where
  "transaction_enter self w =
     w\<lparr>transactions := (transactions w)[self := IN_TRANSACTION w], IN_TRANSACTION := True\<rparr>"

definition transaction_exit :: "nat \<Rightarrow> error option \<Rightarrow> unit io" where
  "transaction_exit self exc w =
     (case (case exc of None \<Rightarrow> conn_commit w | Some _ \<Rightarrow> conn_rollback w) of
        (r, w') \<Rightarrow> (r, w'\<lparr>IN_TRANSACTION := transactions w' ! self\<rparr>))"

definition with_transaction :: "nat \<Rightarrow> 'a io \<Rightarrow> 'a io" where
  "with_transaction self body w =
     (case body (transaction_enter self w) of
        (Inr a, w2) \<Rightarrow>
          (case transaction_exit self None w2 of
             (Inl e, w3) \<Rightarrow> (Inl e, w3)
           | (Inr _, w3) \<Rightarrow> (Inr a, w3))
      | (Inl e, w2) \<Rightarrow>
          (case transaction_exit self (Some e) w2 of
             (Inl e', w3) \<Rightarrow> (Inl e', w3)
           | (Inr _, w3) \<Rightarrow> (Inl e, w3)))"

text \<open>
  \<^verbatim>\<open>with transaction(conn): body\<close>, as the race page writes it: a new Transaction
  object for each scope.
\<close>

definition with_new_transaction :: "'a io \<Rightarrow> 'a io" where
  "with_new_transaction body = and_then transaction (\<lambda>t. with_transaction t body)"

text \<open>
  A computation leaves the existing Transaction objects alone when, from every world,
  the \<open>_prev\<close> of each object that existed before it is the same after it; it may
  create objects.
\<close>

definition keeps_transactions :: "'a io \<Rightarrow> bool" where
  "keeps_transactions m \<longleftrightarrow>
     (\<forall>w. take (length (transactions w)) (transactions (snd (m w))) = transactions w)"

subsection \<open>The SQL statements (rally\_data\_access.py)\<close>

text \<open>
  Each statement is a function on the tables that returns the row count (or the rows
  selected) with the new tables.
\<close>

definition sql_select_teams :: "tables \<Rightarrow> team_row list" where
  "sql_select_teams t = sort_key TEAM_ID (TEAMS t)"

definition get_all_teams :: "team_row list io" where
  "get_all_teams = fetch_all sql_select_teams"

text \<open>
  The cars with the name of their team: a LEFT JOIN, so a car with no matching team
  gives one row with no team name, and the rows are ordered by CAR\_ID.
\<close>

definition left_join_team :: "team_row list \<Rightarrow> car_row \<Rightarrow> (car_row \<times> string option) list" where
  "left_join_team teams c =
     (case filter (\<lambda>t. CAR_TEAM_ID c = Some (TEAM_ID t)) teams of
        [] \<Rightarrow> [(c, None)]
      | ts \<Rightarrow> map (\<lambda>t. (c, Some (TEAM_NAME t))) ts)"

definition sql_select_cars :: "tables \<Rightarrow> (car_row \<times> string option) list" where
  "sql_select_cars t =
     sort_key (\<lambda>r. CAR_ID (fst r)) (concat (map (left_join_team (TEAMS t)) (CARS t)))"

definition get_all_cars :: "(car_row \<times> string option) list io" where
  "get_all_cars = fetch_all sql_select_cars"

definition sql_insert_race :: "string \<Rightarrow> tables \<Rightarrow> int \<times> tables" where
  "sql_insert_race track_name t =
     (1, t\<lparr>RACES := RACES t @
               [\<lparr>RACE_ID = RACE_ID_SEQ t, TRACK_NAME = track_name, WINNER_TEAM_ID = None\<rparr>],
           RACE_ID_SEQ := RACE_ID_SEQ t + 1\<rparr>)"

fun max_of :: "int list \<Rightarrow> int option" where
  "max_of [] = None"
| "max_of (x # xs) = (case max_of xs of None \<Rightarrow> Some x | Some m \<Rightarrow> Some (max x m))"

definition sql_max_race_id :: "tables \<Rightarrow> int option" where
  "sql_max_race_id t = max_of (map RACE_ID (RACES t))"

definition create_race :: "string \<Rightarrow> int option io" where
  "create_race track_name =
     and_then (execute (sql_insert_race track_name)) (\<lambda>_.
       fetch_one_value sql_max_race_id)"

definition sql_set_race_winner :: "int \<Rightarrow> int \<Rightarrow> tables \<Rightarrow> int \<times> tables" where
  "sql_set_race_winner winner_team_id race_id t =
     (int (length (filter (\<lambda>r. RACE_ID r = race_id) (RACES t))),
      t\<lparr>RACES := map (\<lambda>r. if RACE_ID r = race_id
                           then r\<lparr>WINNER_TEAM_ID := Some winner_team_id\<rparr> else r)
                    (RACES t)\<rparr>)"

definition set_race_winner :: "int \<Rightarrow> int \<Rightarrow> int io" where
  "set_race_winner race_id winner_team_id =
     execute (sql_set_race_winner winner_team_id race_id)"

text \<open>The row that the INSERT makes of one tuple of VALUES.\<close>

definition result_of_param :: "int \<times> int \<times> real \<times> int \<Rightarrow> result_row" where
  "result_of_param p =
     (case p of (race_id, car_id, time_taken, position) \<Rightarrow>
        \<lparr>RR_RACE_ID = race_id, RR_CAR_ID = car_id, TIME_TAKEN = time_taken,
          POSITION = position\<rparr>)"

definition sql_insert_race_result :: "int \<times> int \<times> real \<times> int \<Rightarrow> tables \<Rightarrow> int \<times> tables" where
  "sql_insert_race_result p t =
     (1, t\<lparr>RACE_RESULTS := RACE_RESULTS t @ [result_of_param p]\<rparr>)"

definition insert_race_results :: "int \<Rightarrow> (int \<times> real \<times> int) list \<Rightarrow> int io" where
  "insert_race_results race_id results =
     (let params = map (\<lambda>(car_id, time_taken, position).
                          (race_id, car_id, time_taken, position)) results
      in execute_many sql_insert_race_result params)"

definition sql_pay_participation_fee :: "real \<Rightarrow> tables \<Rightarrow> int \<times> tables" where
  "sql_pay_participation_fee fee t =
     (int (length (filter (\<lambda>tm. Some (TEAM_ID tm) \<in> set (map CAR_TEAM_ID (CARS t)))
                     (TEAMS t))),
      t\<lparr>TEAMS := map (\<lambda>tm. if Some (TEAM_ID tm) \<in> set (map CAR_TEAM_ID (CARS t))
                            then tm\<lparr>BUDGET := BUDGET tm - fee\<rparr> else tm)
                    (TEAMS t)\<rparr>)"

definition pay_participation_fee_for_all_teams_with_cars :: "real \<Rightarrow> int io" where
  "pay_participation_fee_for_all_teams_with_cars fee =
     execute (sql_pay_participation_fee fee)"

definition sql_credit_winner_prize :: "real \<Rightarrow> int \<Rightarrow> tables \<Rightarrow> int \<times> tables" where
  "sql_credit_winner_prize prize winner_team_id t =
     (int (length (filter (\<lambda>tm. TEAM_ID tm = winner_team_id) (TEAMS t))),
      t\<lparr>TEAMS := map (\<lambda>tm. if TEAM_ID tm = winner_team_id
                            then tm\<lparr>BUDGET := BUDGET tm + prize\<rparr> else tm)
                    (TEAMS t)\<rparr>)"

definition credit_winner_prize :: "int \<Rightarrow> real \<Rightarrow> int io" where
  "credit_winner_prize winner_team_id prize =
     execute (sql_credit_winner_prize prize winner_team_id)"

subsection \<open>The race page (streamlit\_app.py)\<close>

definition build_track_catalog :: "(string \<times> real \<times> string) list" where
  "build_track_catalog =
     [(''Asphalt Sprint'', 1.00, ''Fast, clean asphalt''),
      (''Desert Loop'', 0.92, ''Sand reduces grip''),
      (''Forest Run'', 0.96, ''Mixed terrain, narrow''),
      (''Mountain Pass'', 0.90, ''Steep climbs, tricky'')]"

text \<open>\<^verbatim>\<open>int(x)\<close> on a missing value (None, or the NaN that pandas puts for NULL) raises.\<close>

definition py_int :: "int option \<Rightarrow> error + int" where
  "py_int x = (case x of None \<Rightarrow> Inl TypeError | Some i \<Rightarrow> Inr i)"

text \<open>The dictionaries collected in \<open>rows\<close>, one per car of the roster.\<close>

record timed_row =
  row_CAR_ID :: int
  row_TEAM_ID :: int
  row_CAR_NAME :: string
  row_TEAM_NAME :: string
  row_TIME_MIN :: real

text \<open>
  The loop over the roster. The car at index \<open>i\<close> of the roster takes the draw \<open>us i\<close>
  of the random generator.
\<close>

fun calc_car_times ::
  "real \<Rightarrow> (nat \<Rightarrow> real) \<Rightarrow> nat \<Rightarrow> (car_row \<times> string option) list \<Rightarrow> error + timed_row list" where
  "calc_car_times t_factor us i [] = Inr []"
| "calc_car_times t_factor us i (row # df) =
     (case simulate_time_minutes (SPEED (fst row)) (DURABILITY (fst row))
             (ACCELERATION (fst row)) t_factor default_variability default_distance_km (us i) of
        Inl e \<Rightarrow> Inl e
      | Inr time_min \<Rightarrow>
          (case py_int (CAR_TEAM_ID (fst row)) of
             Inl e \<Rightarrow> Inl e
           | Inr team_id \<Rightarrow>
               (case calc_car_times t_factor us (Suc i) df of
                  Inl e \<Rightarrow> Inl e
                | Inr rows \<Rightarrow>
                    Inr (\<lparr>row_CAR_ID = CAR_ID (fst row), row_TEAM_ID = team_id,
                          row_CAR_NAME = CAR_NAME (fst row),
                          row_TEAM_NAME = (case snd row of None \<Rightarrow> ''None'' | Some n \<Rightarrow> n),
                          row_TIME_MIN = time_min\<rparr> # rows))))"

text \<open>\<^verbatim>\<open>enumerate(rows_sorted, start=1)\<close>, turned into the tuples of the payload.\<close>

definition results_payload_of :: "timed_row list \<Rightarrow> (int \<times> real \<times> int) list" where
  "results_payload_of rows_sorted =
     map (\<lambda>(pos, r). (row_CAR_ID r, row_TIME_MIN r, int pos)) (enumerate 1 rows_sorted)"

text \<open>The four statements of the \<^verbatim>\<open>with transaction(conn)\<close> block.\<close>

definition settlement_block ::
  "int option \<Rightarrow> (int \<times> real \<times> int) list \<Rightarrow> int \<Rightarrow> real \<Rightarrow> real \<Rightarrow> int io" where
  "settlement_block race_id results_payload winner_team_id fee prize =
     (case py_int race_id of
        Inl e \<Rightarrow> raises e
      | Inr rid \<Rightarrow>
          and_then (insert_race_results rid results_payload) (\<lambda>_.
          and_then (set_race_winner rid winner_team_id) (\<lambda>_.
          and_then (pay_participation_fee_for_all_teams_with_cars fee) (\<lambda>_.
          credit_winner_prize winner_team_id prize))))"

text \<open>
  What the button "Start race!" runs, given the roster \<open>df_c\<close> read when the page was
  drawn: the empty roster stops the script with a warning; otherwise the race is created
  (outside the transaction scope), the times are computed, sorted and numbered, and the
  four writes run inside the scope of a new Transaction object. The result is the race identifier and
  the winning team. The tables shown afterwards only read and are left out.
\<close>

definition start_race ::
  "string \<Rightarrow> real \<Rightarrow> real \<Rightarrow> (nat \<Rightarrow> real) \<Rightarrow> (car_row \<times> string option) list
     \<Rightarrow> (int option \<times> int) io" where
  "start_race track_name fee prize us df_c =
     (if df_c = [] then raises NoCarsAvailable
      else
        and_then (create_race track_name) (\<lambda>race_id.
          case map_of build_track_catalog track_name of
            None \<Rightarrow> raises KeyError
          | Some track \<Rightarrow>
              (case calc_car_times (fst track) us 0 df_c of
                 Inl e \<Rightarrow> raises e
               | Inr rows \<Rightarrow>
                   (let rows_sorted = sort_key row_TIME_MIN rows;
                        results_payload = results_payload_of rows_sorted
                    in case rows_sorted of
                         [] \<Rightarrow> raises IndexError
                       | first # _ \<Rightarrow>
                           (let winner_team_id = row_TEAM_ID first
                            in and_then
                                 (with_new_transaction
                                    (settlement_block race_id results_payload
                                       winner_team_id fee prize))
                                 (\<lambda>_. returns (race_id, winner_team_id)))))))"

text \<open>
  The race page with the button pressed: the track is looked up in the catalog, the
  cars and the teams are read, then the race starts.
\<close>

definition race_page ::
  "string \<Rightarrow> real \<Rightarrow> real \<Rightarrow> (nat \<Rightarrow> real) \<Rightarrow> (int option \<times> int) io" where
  "race_page track_name fee prize us =
     (case map_of build_track_catalog track_name of
        None \<Rightarrow> raises KeyError
      | Some track \<Rightarrow>
          and_then get_all_cars (\<lambda>df_c.
          and_then get_all_teams (\<lambda>df_t.
          start_race track_name fee prize us df_c)))"

subsection \<open>A concrete database\<close>

text \<open>
  The scenario of the specification: CarA (speed 220, durability 0.85, acceleration 0.90)
  of team 1 and CarB (speed 200, durability 0.80, acceleration 0.80) of team 2; a third
  team owns no car. \<open>example_world fs\<close> is a fresh session on these tables whose driver
  calls fail as \<open>fs\<close> says.
\<close>

definition example_tables :: tables where
  "example_tables =
     \<lparr>TEAMS = [\<lparr>TEAM_ID = 1, TEAM_NAME = ''T1'', MEMBERS = ''Alice,Bob'', BUDGET = 10000\<rparr>,
               \<lparr>TEAM_ID = 2, TEAM_NAME = ''T2'', MEMBERS = ''Carol'', BUDGET = 8000\<rparr>,
               \<lparr>TEAM_ID = 3, TEAM_NAME = ''T3'', MEMBERS = ''Dave'', BUDGET = 500\<rparr>],
      CARS = [\<lparr>CAR_ID = 1, CAR_NAME = ''CarA'', CAR_TEAM_ID = Some 1, SPEED = 220,
                DURABILITY = 0.85, ACCELERATION = 0.90\<rparr>,
              \<lparr>CAR_ID = 2, CAR_NAME = ''CarB'', CAR_TEAM_ID = Some 2, SPEED = 200,
                DURABILITY = 0.80, ACCELERATION = 0.80\<rparr>],
      RACES = [], RACE_RESULTS = [], RACE_ID_SEQ = 1\<rparr>"

definition example_world :: "bool list \<Rightarrow> world" where
  "example_world fs =
     \<lparr>committed = example_tables, session = example_tables, IN_TRANSACTION = False,
      faults = fs, transactions = []\<rparr>"

text \<open>The random generator that always draws 0.5, so that the random factor is 1.\<close>

definition fixed_draws :: "nat \<Rightarrow> real" where
  "fixed_draws i = 1 / 2"

text \<open>
  The same database after one race on the track Asphalt Sprint with fee 1000 and prize
  5000: CarA wins, team 1 gains the prize less the fee, team 2 pays the fee, team 3 is
  untouched.
\<close>

definition example_settled_tables :: tables where
  "example_settled_tables =
     \<lparr>TEAMS = [\<lparr>TEAM_ID = 1, TEAM_NAME = ''T1'', MEMBERS = ''Alice,Bob'', BUDGET = 14000\<rparr>,
               \<lparr>TEAM_ID = 2, TEAM_NAME = ''T2'', MEMBERS = ''Carol'', BUDGET = 7000\<rparr>,
               \<lparr>TEAM_ID = 3, TEAM_NAME = ''T3'', MEMBERS = ''Dave'', BUDGET = 500\<rparr>],
      CARS = [\<lparr>CAR_ID = 1, CAR_NAME = ''CarA'', CAR_TEAM_ID = Some 1, SPEED = 220,
                DURABILITY = 0.85, ACCELERATION = 0.90\<rparr>,
              \<lparr>CAR_ID = 2, CAR_NAME = ''CarB'', CAR_TEAM_ID = Some 2, SPEED = 200,
                DURABILITY = 0.80, ACCELERATION = 0.80\<rparr>],
      RACES = [\<lparr>RACE_ID = 1, TRACK_NAME = ''Asphalt Sprint'', WINNER_TEAM_ID = Some 1\<rparr>],
      RACE_RESULTS = [\<lparr>RR_RACE_ID = 1, RR_CAR_ID = 1, TIME_TAKEN = 31.036, POSITION = 1\<rparr>,
                      \<lparr>RR_RACE_ID = 1, RR_CAR_ID = 2, TIME_TAKEN = 37.037, POSITION = 2\<rparr>],
      RACE_ID_SEQ = 2\<rparr>"

definition example_settled_world :: world where
  "example_settled_world =
     \<lparr>committed = example_settled_tables, session = example_settled_tables,
      IN_TRANSACTION = False, faults = [], transactions = [False]\<rparr>"

text \<open>The same session with no car registered.\<close>

definition no_cars_world :: world where
  "no_cars_world =
     \<lparr>committed = example_tables\<lparr>CARS := []\<rparr>, session = example_tables\<lparr>CARS := []\<rparr>,
      IN_TRANSACTION = False, faults = [], transactions = []\<rparr>"

section \<open>Properties of the race time model\<close>

lemma clamp01_eq: "max 0 (min 1 x) = clamp01 x"
  by (simp add: clamp01_def max_def min_def)

lemma clamp01_mono: "x \<le> y \<Longrightarrow> clamp01 x \<le> clamp01 y"
  by (simp add: clamp01_def)

lemma clamp01_bounds: "0 \<le> clamp01 x \<and> clamp01 x \<le> 1"
  by (simp add: clamp01_def)

lemma spec_effective_speed_ge: "50 \<le> spec_effective_speed s d a r tf"
  by (simp add: spec_effective_speed_def Let_def)

lemma simulate_time_minutes_eq:
  "simulate_time_minutes s d a tf (lo, hi) km u =
     Inr (spec_time_minutes s d a (random_uniform lo hi u) tf km)"
proof -
  have pos: "spec_effective_speed s d a (random_uniform lo hi u) tf \<noteq> 0"
    using spec_effective_speed_ge [of s d a "random_uniform lo hi u" tf] by simp
  have m: "max 50 (s * (0.5 + 0.5 * clamp01 d) * (0.5 + 0.5 * clamp01 a)
                    * random_uniform lo hi u * tf)
           = spec_effective_speed s d a (random_uniform lo hi u) tf"
    by (simp add: spec_effective_speed_def perf_def Let_def max_def)
  show ?thesis
    unfolding simulate_time_minutes_def Let_def clamp01_eq fst_conv snd_conv m
      py_truediv_def spec_time_minutes_def
    using pos by (simp add: mult.commute)
qed


lemma round_half_even_bounds:
  "\<lfloor>x\<rfloor> \<le> round_half_even x \<and> round_half_even x \<le> \<lfloor>x\<rfloor> + 1"
  by (simp add: round_half_even_def Let_def)

lemma round_half_even_mono:
  assumes "x \<le> y"
  shows "round_half_even x \<le> round_half_even y"
proof (cases "\<lfloor>x\<rfloor> = \<lfloor>y\<rfloor>")
  case True
  then show ?thesis
    using assms by (auto simp add: round_half_even_def Let_def)
next
  case False
  then have "\<lfloor>x\<rfloor> < \<lfloor>y\<rfloor>"
    using floor_mono [OF assms] by simp
  then have "\<lfloor>x\<rfloor> + 1 \<le> \<lfloor>y\<rfloor>" by simp
  then show ?thesis
    using round_half_even_bounds [of x] round_half_even_bounds [of y] by linarith
qed

lemma py_round_mono: "x \<le> y \<Longrightarrow> py_round x n \<le> py_round y n"
  by (simp add: py_round_def round_half_even_mono divide_right_mono)

lemma round_half_even_pos_iff:
  assumes "0 \<le> x"
  shows "0 < round_half_even x \<longleftrightarrow> 1 / 2 < x"
proof (cases "\<lfloor>x\<rfloor> = 0")
  case True
  then show ?thesis
    by (simp add: round_half_even_def Let_def)
next
  case False
  have "0 \<le> \<lfloor>x\<rfloor>" using assms by (simp only: zero_le_floor)
  with False have one: "1 \<le> \<lfloor>x\<rfloor>" by linarith
  then have "0 < round_half_even x"
    using round_half_even_bounds [of x] by linarith
  moreover have "1 \<le> x" using one by simp
  ultimately show ?thesis by linarith
qed

lemma py_round_nonneg: "0 \<le> x \<Longrightarrow> 0 \<le> py_round x n"
proof -
  assume "0 \<le> x"
  then have "0 \<le> x * 10 ^ n" by simp
  then have "0 \<le> \<lfloor>x * 10 ^ n\<rfloor>" by simp
  then have "0 \<le> round_half_even (x * 10 ^ n)"
    using round_half_even_bounds [of "x * 10 ^ n"] by linarith
  then show ?thesis by (simp add: py_round_def)
qed

lemma py_round_pos_iff:
  assumes "0 \<le> x"
  shows "0 < py_round x 3 \<longleftrightarrow> 1 / 2000 < x"
proof -
  have "0 \<le> x * 10 ^ 3" using assms by simp
  then have "0 < round_half_even (x * 10 ^ 3) \<longleftrightarrow> 1 / 2 < x * 10 ^ 3"
    by (rule round_half_even_pos_iff)
  then show ?thesis
    by (simp add: py_round_def zero_less_divide_iff mult.commute)
qed

lemma random_uniform_ge: "lo \<le> hi \<Longrightarrow> 0 \<le> u \<Longrightarrow> lo \<le> random_uniform lo hi u"
  by (simp add: random_uniform_def)

lemma random_uniform_le: "lo \<le> hi \<Longrightarrow> u \<le> 1 \<Longrightarrow> random_uniform lo hi u \<le> hi"
proof -
  assume a: "lo \<le> hi" "u \<le> 1"
  then have "(hi - lo) * u \<le> (hi - lo) * 1"
    by (intro mult_left_mono) simp_all
  then show ?thesis by (simp add: random_uniform_def)
qed

lemma spec_effective_speed_max:
  "spec_effective_speed s d a r tf = max 50 (s * perf d * perf a * r * tf)"
  by (simp add: spec_effective_speed_def Let_def max_def)

lemma perf_pos: "0 < perf x"
  using clamp01_bounds [of x] by (simp add: perf_def)

lemma perf_mono: "x \<le> y \<Longrightarrow> perf x \<le> perf y"
  using clamp01_mono [of x y] by (simp add: perf_def)

lemma product_mono:
  fixes s :: real
  assumes "0 \<le> s" "s \<le> s'" "0 \<le> p" "p \<le> p'" "0 \<le> q" "q \<le> q'"
    and "0 \<le> r" "r \<le> r'" "0 \<le> t" "t \<le> t'"
  shows "s * p * q * r * t \<le> s' * p' * q' * r' * t'"
proof -
  have 1: "s * p \<le> s' * p'" and n1: "0 \<le> s * p"
    using assms by (simp_all add: mult_mono)
  have 2: "s * p * q \<le> s' * p' * q'" and n2: "0 \<le> s * p * q"
    using 1 n1 assms by (simp_all add: mult_mono)
  have 3: "s * p * q * r \<le> s' * p' * q' * r'" and n3: "0 \<le> s * p * q * r"
    using 2 n2 assms by (simp_all add: mult_mono)
  show ?thesis
    using 3 n3 assms by (simp add: mult_mono)
qed

lemma effective_speed_mono:
  assumes "0 < s" "s \<le> s'" "d \<le> d'" "a \<le> a'" "0 < r" "0 < tf" "tf \<le> tf'"
  shows "spec_effective_speed s d a r tf \<le> spec_effective_speed s' d' a' r tf'"
proof -
  have "s * perf d * perf a * r * tf \<le> s' * perf d' * perf a' * r * tf'"
    using assms perf_pos [of d] perf_pos [of a] perf_mono [of d d'] perf_mono [of a a']
    by (intro product_mono) simp_all
  then show ?thesis
    unfolding spec_effective_speed_max by (rule max.mono [OF order_refl])
qed

lemma spec_time_minutes_antimono:
  assumes "0 < km"
    and "spec_effective_speed s d a r tf \<le> spec_effective_speed s' d' a' r' tf'"
  shows "spec_time_minutes s' d' a' r' tf' km \<le> spec_time_minutes s d a r tf km"
proof -
  have "0 < spec_effective_speed s d a r tf"
    using spec_effective_speed_ge [of s d a r tf] by simp
  then have "60 * km / spec_effective_speed s' d' a' r' tf'
             \<le> 60 * km / spec_effective_speed s d a r tf"
    using assms by (intro divide_left_mono) simp_all
  then show ?thesis
    unfolding spec_time_minutes_def by (rule py_round_mono)
qed

lemma ulp_search_pos: "0 < u \<Longrightarrow> 0 < ulp_search n a u"
  by (induction n arbitrary: a u) simp_all

lemma round_half_even_nonneg: "0 \<le> x \<Longrightarrow> 0 \<le> round_half_even x"
proof -
  assume "0 \<le> x"
  then have "0 \<le> \<lfloor>x\<rfloor>" by (simp only: zero_le_floor)
  then show ?thesis
    using round_half_even_bounds [of x] by linarith
qed

lemma to_double_nonneg:
  assumes "0 \<le> x"
  shows "0 \<le> to_double x"
proof (cases "x = 0")
  case True
  then show ?thesis by (simp add: to_double_def)
next
  case False
  let ?u = "ulp_search 1100 \<bar>x\<bar> 1"
  have u: "0 < ?u" by (rule ulp_search_pos) simp
  then have "0 \<le> x / ?u" using assms by simp
  then have "0 \<le> round_half_even (x / ?u)" by (rule round_half_even_nonneg)
  then have "0 \<le> ?u * of_int (round_half_even (x / ?u))"
    using u by simp
  then show ?thesis
    using False by (simp add: to_double_def Let_def)
qed

lemma py_round_double_nonneg: "0 \<le> x \<Longrightarrow> 0 \<le> py_round_double x n"
proof -
  assume "0 \<le> x"
  then have "0 \<le> x * 10 ^ n" by simp
  then have "0 \<le> round_half_even (x * 10 ^ n)" by (rule round_half_even_nonneg)
  then have "0 \<le> real_of_int (round_half_even (x * 10 ^ n)) / 10 ^ n" by simp
  then show ?thesis
    unfolding py_round_double_def by (rule to_double_nonneg)
qed

lemma spec_effective_speed_double_ge: "50 \<le> spec_effective_speed_double s d a r tf"
  by (simp add: spec_effective_speed_double_def Let_def)

lemma simulate_time_minutes_double_eq:
  "simulate_time_minutes_double s d a tf (lo, hi) km u =
     Inr (hours_to_minutes_double s d a (random_uniform_double lo hi u) tf km)"
proof -
  let ?r = "random_uniform_double lo hi u"
  have pos: "spec_effective_speed_double s d a ?r tf \<noteq> 0"
    using spec_effective_speed_double_ge [of s d a ?r tf] by simp
  have m: "max 50 (to_double (to_double (to_double (to_double
               (s * to_double (0.5 + to_double (0.5 * clamp01 d)))
                  * to_double (0.5 + to_double (0.5 * clamp01 a))) * ?r) * tf))
           = spec_effective_speed_double s d a ?r tf"
    unfolding spec_effective_speed_double_def perf_double_def Let_def
    by (simp only: max_def not_less [symmetric] if_not_P if_P split: if_splits) auto
  show ?thesis
    unfolding simulate_time_minutes_double_def Let_def clamp01_eq fst_conv snd_conv m
      py_truediv_double_def hours_to_minutes_double_def
    using pos by simp
qed

lemma round_half_even_nearest:
  "\<bar>x - of_int (round_half_even x)\<bar> \<le> 1 / 2
   \<and> (\<bar>x - of_int (round_half_even x)\<bar> = 1 / 2 \<longrightarrow> even (round_half_even x))"
proof -
  let ?d = "x - of_int \<lfloor>x\<rfloor>"
  have d: "0 \<le> ?d" "?d < 1" by linarith+
  consider "?d < 1 / 2" | "1 / 2 < ?d" | "?d = 1 / 2" by linarith
  then show ?thesis
  proof cases
    case 1
    then have "round_half_even x = \<lfloor>x\<rfloor>" by (simp add: round_half_even_def Let_def)
    then show ?thesis using 1 d by simp
  next
    case 2
    then have "round_half_even x = \<lfloor>x\<rfloor> + 1" by (simp add: round_half_even_def Let_def)
    then show ?thesis using 2 d by simp
  next
    case 3
    then have "round_half_even x = (if even \<lfloor>x\<rfloor> then \<lfloor>x\<rfloor> else \<lfloor>x\<rfloor> + 1)"
      by (simp add: round_half_even_def Let_def)
    then show ?thesis using 3 by auto
  qed
qed

section \<open>Claims about the race time model\<close>

lemmas to_double_eval = to_double_def eval_nat_numeral round_half_even_def Let_def

lemma to_double_0: "to_double 0 = 0"
  by (simp add: to_double_def)

lemma to_double_half: "to_double (1 / 2) = 1 / 2"
  by (simp add: to_double_eval)

lemma to_double_1: "to_double 1 = 1"
  by (simp add: to_double_eval)

lemma to_double_384: "to_double 384 = 384"
  by (simp add: to_double_eval)

lemma to_double_3000: "to_double 3000 = 3000"
  by (simp add: to_double_eval)

lemma to_double_minutes:
  "to_double (4691249611844267 / 36028797018963968 * 60)
     = 8796093022208001 / 1125899906842624"
  by (simp add: to_double_eval)

lemma to_double_7813: "to_double (7813 / 1000) = 8796655972161421 / 1125899906842624"
  by (simp add: to_double_eval)

lemma to_double_7812: "to_double (7812 / 1000) = 8795530072254579 / 1125899906842624"
  by (simp add: to_double_eval)

lemma example_perf: "to_double (0.5 + to_double (0.5 * clamp01 1)) = 1"
  by (simp add: clamp01_def to_double_half to_double_1)

lemma example_rand: "random_uniform_double 1 1 (1 / 2) = 1"
  by (simp add: random_uniform_double_def to_double_0 to_double_1)

lemma example_speed: "spec_effective_speed_double 384 1 1 1 1 = 384"
  unfolding spec_effective_speed_double_def perf_double_def example_perf Let_def
  by (simp add: to_double_384)

text \<open>
  C9, as stated, fails in the code's arithmetic: the code divides first and multiplies
  by 60 afterwards, and the quotient is rounded in between. With speed 384, durability,
  acceleration and track factor 1, variability (1, 1) and distance 50 the code returns
  7.813, where \<open>round(60 * distance_km / effective_speed, 3)\<close> is 7.812, in doubles
  and in exact arithmetic (\<open>3000 / 384 = 7.8125\<close>, a tie that goes to the even 7.812).
\<close>

theorem simulate_time_minutes_formula_counterexample:
  "simulate_time_minutes_double 384 1 1 1 (1, 1) 50 (1 / 2) = Inr (to_double (7813 / 1000))
   \<and> spec_time_minutes_double 384 1 1 (random_uniform_double 1 1 (1 / 2)) 1 50
       = to_double (7812 / 1000)
   \<and> spec_time_minutes 384 1 1 (random_uniform 1 1 (1 / 2)) 1 50 = 7812 / 1000
   \<and> to_double (7813 / 1000) \<noteq> to_double (7812 / 1000)"
proof -
  have hours: "to_double (50 / 384) = 4691249611844267 / 36028797018963968"
    by (simp add: to_double_eval)
  have rnd: "py_round_double (8796093022208001 / 1125899906842624) 3 = to_double (7813 / 1000)"
    by (simp add: py_round_double_def round_half_even_def Let_def)
  have code: "hours_to_minutes_double 384 1 1 1 1 50 = to_double (7813 / 1000)"
    unfolding hours_to_minutes_double_def example_speed hours to_double_minutes rnd
    by (rule refl)
  have sixty: "to_double (60 * 50) = 3000"
    by (simp add: to_double_3000)
  have quot: "to_double (3000 / 384) = 125 / 16"
    by (simp add: to_double_eval)
  have rnd': "py_round_double (125 / 16) 3 = to_double (7812 / 1000)"
    by (simp add: py_round_double_def round_half_even_def Let_def)
  have claimed: "spec_time_minutes_double 384 1 1 1 1 50 = to_double (7812 / 1000)"
    unfolding spec_time_minutes_double_def example_speed sixty quot rnd'
    by (rule refl)
  have exact: "spec_time_minutes 384 1 1 (random_uniform 1 1 (1 / 2)) 1 50 = 7812 / 1000"
    by (simp add: spec_time_minutes_def spec_effective_speed_def perf_def clamp01_def
        random_uniform_def py_round_def round_half_even_def Let_def)
  have ne: "to_double (7813 / 1000) \<noteq> to_double (7812 / 1000)"
    unfolding to_double_7813 to_double_7812 by simp
  show ?thesis
    unfolding simulate_time_minutes_double_eq example_rand
    using code claimed exact ne by simp
qed

text \<open>
  C9, amended. On every input the race time model computes
  \<open>round(time_hours * 60, 3)\<close> with \<open>time_hours = distance_km / effective_speed\<close>,
  each operation rounded to a double, where the effective speed is \<open>speed * (0.5 + 0.5 *
  durability) * (0.5 + 0.5 * acceleration) * rand * track_factor\<close> floored at 50,
  durability and acceleration being clamped to the interval from 0 to 1 first; it
  never raises. In exact arithmetic this is \<open>round(60 * distance_km / effective_speed,
  3)\<close>. The rounding to three decimals takes the nearest multiple of 0.001 of the
  value it is given, the even one at a tie, and in doubles returns the double nearest to
  that.
\<close>

theorem simulate_time_minutes_formula:
  "simulate_time_minutes_double speed durability acceleration track_factor (lo, hi)
       distance_km u =
     Inr (hours_to_minutes_double speed durability acceleration
            (random_uniform_double lo hi u) track_factor distance_km)
   \<and> simulate_time_minutes speed durability acceleration track_factor (lo, hi) distance_km u =
       Inr (spec_time_minutes speed durability acceleration (random_uniform lo hi u)
              track_factor distance_km)
   \<and> py_round_double x 3 = to_double (py_round x 3)
   \<and> py_round x 3 = of_int (round_half_even (x * 1000)) / 1000
   \<and> \<bar>x * 1000 - of_int (round_half_even (x * 1000))\<bar> \<le> 1 / 2
   \<and> (\<bar>x * 1000 - of_int (round_half_even (x * 1000))\<bar> = 1 / 2 \<longrightarrow>
        even (round_half_even (x * 1000)))"
proof -
  have 3: "py_round_double x 3 = to_double (py_round x 3)"
    by (simp add: py_round_double_def py_round_def)
  have 4: "py_round x 3 = of_int (round_half_even (x * 1000)) / 1000"
    by (simp add: py_round_def)
  show ?thesis
    using round_half_even_nearest [of "x * 1000"]
    by (intro conjI simulate_time_minutes_double_eq simulate_time_minutes_eq 3 4) simp_all
qed

theorem simulate_time_minutes_formula_witness:
  "\<bar>125 / 16 * 1000 - of_int (round_half_even (125 / 16 * 1000))\<bar> = (1 / 2 :: real)
   \<and> even (round_half_even (125 / 16 * 1000))
   \<and> py_round (125 / 16) 3 = 7812 / 1000"
proof -
  have tie: "\<bar>125 / 16 * 1000 - of_int (round_half_even (125 / 16 * 1000))\<bar> = (1 / 2 :: real)"
    by (simp add: round_half_even_def Let_def)
  have ev: "even (round_half_even (125 / 16 * 1000))"
    by (rule simulate_time_minutes_formula [where x = "125 / 16",
          THEN conjunct2, THEN conjunct2, THEN conjunct2, THEN conjunct2, THEN conjunct2,
          THEN mp, OF tie])
  have "py_round (125 / 16) 3 = 7812 / 1000"
    by (simp add: py_round_def round_half_even_def Let_def)
  with tie ev show ?thesis by simp
qed

text \<open>
  C2, as stated, fails: the function has no validation. With speed 0 it returns 120
  minutes (the floor of 50 on the effective speed), with distance -100 it returns a
  negative time, and with the bounds swapped (lo above hi) or both 0 it returns a time.
\<close>

theorem simulate_time_minutes_rejects_counterexample:
  "simulate_time_minutes 0 0.85 0.9 1 (0.95, 1.05) 100 (1 / 2) = Inr 120
   \<and> simulate_time_minutes 220 0.85 0.9 1 (0.95, 1.05) (- 100) (1 / 2) = Inr (- 31.036)
   \<and> simulate_time_minutes 220 0.85 0.9 1 (1.05, 0.95) 100 (1 / 2) = Inr 31.036
   \<and> simulate_time_minutes 220 0.85 0.9 1 (0, 0) 100 (1 / 2) = Inr 120"
  by (simp add: simulate_time_minutes_def Let_def random_uniform_def py_truediv_def
      py_round_def round_half_even_def)

text \<open>
  C2, amended: the race time model never signals an error. For every input, also with
  speed or distance at or below 0 or with invalid variability bounds, it returns a finish
  time; the division cannot fail because the effective speed is floored at 50. It is a
  function of its arguments and of the random draw alone.
\<close>

theorem simulate_time_minutes_total:
  "\<exists>t. simulate_time_minutes speed durability acceleration track_factor variability
          distance_km u = Inr t"
  by (cases variability) (simp add: simulate_time_minutes_eq)

text \<open>
  C7, as stated, fails: the result is rounded to three decimals, so a short distance (or
  a very high speed) gives 0.0. Here all inputs are valid and the distance is 0.0001 km.
\<close>

theorem simulate_time_minutes_positive_counterexample:
  "simulate_time_minutes 220 0.85 0.9 1 (0.95, 1.05) (1 / 10000) (1 / 2) = Inr 0"
  by (simp add: simulate_time_minutes_def Let_def random_uniform_def py_truediv_def
      py_round_def round_half_even_def)

text \<open>
  C7, amended: for a positive distance and any random draw the race time model returns a
  value that is at least 0, in exact arithmetic and in doubles; it can be exactly 0.0,
  since the result is rounded to three decimals.
\<close>

theorem simulate_time_minutes_nonneg:
  assumes "0 < distance_km"
  shows "(\<exists>t. simulate_time_minutes speed durability acceleration track_factor (lo, hi)
               distance_km u = Inr t \<and> 0 \<le> t)
       \<and> (\<exists>t. simulate_time_minutes_double speed durability acceleration track_factor (lo, hi)
               distance_km u = Inr t \<and> 0 \<le> t)"
proof -
  let ?e = "spec_effective_speed speed durability acceleration (random_uniform lo hi u)
              track_factor"
  let ?f = "spec_effective_speed_double speed durability acceleration
              (random_uniform_double lo hi u) track_factor"
  have e: "0 < ?e"
    using spec_effective_speed_ge [of speed durability acceleration
        "random_uniform lo hi u" track_factor] by simp
  have "0 \<le> 60 * distance_km / ?e"
    using assms e by simp
  then have exact: "0 \<le> py_round (60 * distance_km / ?e) 3"
    by (rule py_round_nonneg)
  have f: "0 < ?f"
    using spec_effective_speed_double_ge [of speed durability acceleration
        "random_uniform_double lo hi u" track_factor] by simp
  have "0 \<le> distance_km / ?f"
    using assms f by simp
  then have "0 \<le> to_double (distance_km / ?f)"
    by (rule to_double_nonneg)
  then have "0 \<le> to_double (distance_km / ?f) * 60"
    by simp
  then have "0 \<le> to_double (to_double (distance_km / ?f) * 60)"
    by (rule to_double_nonneg)
  then have double: "0 \<le> py_round_double (to_double (to_double (distance_km / ?f) * 60)) 3"
    by (rule py_round_double_nonneg)
  show ?thesis
    unfolding simulate_time_minutes_eq simulate_time_minutes_double_eq spec_time_minutes_def
      hours_to_minutes_double_def
    using exact double by simp
qed

theorem simulate_time_minutes_nonneg_witness:
  "(0::real) < 100
   \<and> (\<exists>t. simulate_time_minutes 220 0.85 0.9 1 (0.95, 1.05) 100 (1 / 2) = Inr t \<and> 0 \<le> t)
   \<and> (\<exists>t. simulate_time_minutes_double 220 0.85 0.9 1 (0.95, 1.05) 100 (1 / 2) = Inr t
          \<and> 0 \<le> t)"
proof -
  have h: "(0::real) < 100" by simp
  show ?thesis
    using h simulate_time_minutes_nonneg [OF h, of 220 "0.85" "0.9" 1 "0.95" "1.05" "1 / 2"]
    by (rule conjI)
qed

text \<open>
  C6. With the random draw fixed, the finish time does not increase when speed,
  durability, acceleration or the track factor increases and the other inputs stay the
  same. The inputs are valid: speed, track factor and distance positive, and
  \<open>0 < lo \<le> hi\<close> with the draw \<open>u\<close> of \<^verbatim>\<open>random()\<close> not negative, so that the random
  factor is positive.
\<close>

theorem simulate_time_minutes_monotone:
  assumes "0 < speed" "0 < track_factor" "0 < distance_km" "0 < lo" "lo \<le> hi" "0 \<le> u"
  shows "(speed \<le> speed' \<longrightarrow>
            (\<exists>t t'. simulate_time_minutes speed durability acceleration track_factor (lo, hi)
                       distance_km u = Inr t
                  \<and> simulate_time_minutes speed' durability acceleration track_factor (lo, hi)
                       distance_km u = Inr t'
                  \<and> t' \<le> t))
       \<and> (durability \<le> durability' \<longrightarrow>
            (\<exists>t t'. simulate_time_minutes speed durability acceleration track_factor (lo, hi)
                       distance_km u = Inr t
                  \<and> simulate_time_minutes speed durability' acceleration track_factor (lo, hi)
                       distance_km u = Inr t'
                  \<and> t' \<le> t))
       \<and> (acceleration \<le> acceleration' \<longrightarrow>
            (\<exists>t t'. simulate_time_minutes speed durability acceleration track_factor (lo, hi)
                       distance_km u = Inr t
                  \<and> simulate_time_minutes speed durability acceleration' track_factor (lo, hi)
                       distance_km u = Inr t'
                  \<and> t' \<le> t))
       \<and> (track_factor \<le> track_factor' \<longrightarrow>
            (\<exists>t t'. simulate_time_minutes speed durability acceleration track_factor (lo, hi)
                       distance_km u = Inr t
                  \<and> simulate_time_minutes speed durability acceleration track_factor' (lo, hi)
                       distance_km u = Inr t'
                  \<and> t' \<le> t))"
proof -
  let ?r = "random_uniform lo hi u"
  have r: "0 < ?r"
    using random_uniform_ge [of lo hi u] assms by simp
  have 1: "spec_time_minutes speed' durability acceleration ?r track_factor distance_km
           \<le> spec_time_minutes speed durability acceleration ?r track_factor distance_km"
    if "speed \<le> speed'"
    using assms r that by (intro spec_time_minutes_antimono effective_speed_mono) simp_all
  have 2: "spec_time_minutes speed durability' acceleration ?r track_factor distance_km
           \<le> spec_time_minutes speed durability acceleration ?r track_factor distance_km"
    if "durability \<le> durability'"
    using assms r that by (intro spec_time_minutes_antimono effective_speed_mono) simp_all
  have 3: "spec_time_minutes speed durability acceleration' ?r track_factor distance_km
           \<le> spec_time_minutes speed durability acceleration ?r track_factor distance_km"
    if "acceleration \<le> acceleration'"
    using assms r that by (intro spec_time_minutes_antimono effective_speed_mono) simp_all
  have 4: "spec_time_minutes speed durability acceleration ?r track_factor' distance_km
           \<le> spec_time_minutes speed durability acceleration ?r track_factor distance_km"
    if "track_factor \<le> track_factor'"
    using assms r that by (intro spec_time_minutes_antimono effective_speed_mono) simp_all
  show ?thesis
    unfolding simulate_time_minutes_eq using 1 2 3 4 by simp
qed

theorem simulate_time_minutes_monotone_witness:
  "(\<exists>t t'. simulate_time_minutes 200 0.8 0.8 0.9 (0.95, 1.05) 100 (1 / 2) = Inr t
          \<and> simulate_time_minutes 220 0.8 0.8 0.9 (0.95, 1.05) 100 (1 / 2) = Inr t'
          \<and> t' \<le> t)
   \<and> (\<exists>t t'. simulate_time_minutes 200 0.8 0.8 0.9 (0.95, 1.05) 100 (1 / 2) = Inr t
          \<and> simulate_time_minutes 200 0.85 0.8 0.9 (0.95, 1.05) 100 (1 / 2) = Inr t'
          \<and> t' \<le> t)
   \<and> (\<exists>t t'. simulate_time_minutes 200 0.8 0.8 0.9 (0.95, 1.05) 100 (1 / 2) = Inr t
          \<and> simulate_time_minutes 200 0.8 0.9 0.9 (0.95, 1.05) 100 (1 / 2) = Inr t'
          \<and> t' \<le> t)
   \<and> (\<exists>t t'. simulate_time_minutes 200 0.8 0.8 0.9 (0.95, 1.05) 100 (1 / 2) = Inr t
          \<and> simulate_time_minutes 200 0.8 0.8 1 (0.95, 1.05) 100 (1 / 2) = Inr t'
          \<and> t' \<le> t)"
  using simulate_time_minutes_monotone [where speed = 200 and track_factor = "0.9"
      and distance_km = 100 and lo = "0.95" and hi = "1.05" and u = "1 / 2"
      and speed' = 220 and durability = "0.8" and acceleration = "0.8"
      and durability' = "0.85" and acceleration' = "0.9" and track_factor' = 1]
  by simp

section \<open>The connection, execute and the transaction scope\<close>

lemmas io_defs = and_then_def returns_def raises_def cursor_execute_def conn_commit_def
  conn_rollback_def driver_fails_def driver_called_def execute_def execute_many_def
  fetch_all_def fetch_one_value_def

lemma and_then_Inr:
  "and_then m f w = (Inr b, w') \<longleftrightarrow> (\<exists>a w1. m w = (Inr a, w1) \<and> f a w1 = (Inr b, w'))"
  by (auto simp add: and_then_def split: prod.splits sum.splits)

lemma and_then_ok: "m w = (Inr a, w1) \<Longrightarrow> and_then m f w = f a w1"
  by (simp add: and_then_def)

lemma and_then_err: "m w = (Inl e, w1) \<Longrightarrow> and_then m f w = (Inl e, w1)"
  by (simp add: and_then_def)

lemma returns_Inr: "returns a w = (Inr b, w') \<longleftrightarrow> b = a \<and> w' = w"
  by (auto simp add: returns_def)

lemma cursor_execute_Inr:
  "cursor_execute stmt w = (Inr a, w') \<longleftrightarrow>
     \<not> driver_fails w \<and> a = fst (stmt (session w))
     \<and> w' = (driver_called w)\<lparr>session := snd (stmt (session w))\<rparr>"
  by (auto simp add: cursor_execute_def split: prod.splits)

lemma conn_commit_Inr:
  "conn_commit w = (Inr a, w') \<longleftrightarrow>
     \<not> driver_fails w \<and> w' = (driver_called w)\<lparr>committed := session w\<rparr>"
  by (auto simp add: conn_commit_def)

lemma conn_rollback_Inr:
  "conn_rollback w = (Inr a, w') \<longleftrightarrow>
     \<not> driver_fails w \<and> w' = (driver_called w)\<lparr>session := committed w\<rparr>"
  by (auto simp add: conn_rollback_def)

lemma driver_called_fields [simp]:
  "session (driver_called w) = session w"
  "committed (driver_called w) = committed w"
  "IN_TRANSACTION (driver_called w) = IN_TRANSACTION w"
  "faults (driver_called w) = tl (faults w)"
  "transactions (driver_called w) = transactions w"
  by (simp_all add: driver_called_def)

lemma cursor_execute_keeps:
  "committed (snd (cursor_execute stmt w)) = committed w"
  "IN_TRANSACTION (snd (cursor_execute stmt w)) = IN_TRANSACTION w"
  "transactions (snd (cursor_execute stmt w)) = transactions w"
  by (simp_all add: cursor_execute_def split: prod.splits)

lemma conn_keeps:
  "transactions (snd (conn_commit w)) = transactions w"
  "transactions (snd (conn_rollback w)) = transactions w"
  by (simp_all add: conn_commit_def conn_rollback_def)

lemma execute_in_transaction:
  "IN_TRANSACTION w \<Longrightarrow> committed (snd (execute sql w)) = committed w"
  by (simp add: execute_def and_then_def returns_def cursor_execute_def split: prod.splits)

lemma execute_many_in_transaction:
  "IN_TRANSACTION w \<Longrightarrow> committed (snd (execute_many sql ps w)) = committed w"
  by (simp add: execute_many_def and_then_def returns_def cursor_execute_def split: prod.splits)

lemma execute_transactions: "transactions (snd (execute sql w)) = transactions w"
  by (simp add: execute_def and_then_def returns_def cursor_execute_def conn_commit_def
      split: prod.splits)

lemma execute_many_transactions: "transactions (snd (execute_many sql ps w)) = transactions w"
  by (simp add: execute_many_def and_then_def returns_def cursor_execute_def conn_commit_def
      split: prod.splits)

lemma transaction_exit_keeps:
  "IN_TRANSACTION (snd (transaction_exit self exc w)) = transactions w ! self"
  "transactions (snd (transaction_exit self exc w)) = transactions w"
  by (simp_all add: transaction_exit_def conn_commit_def conn_rollback_def
      split: prod.splits option.splits)

lemma with_transaction_keeps:
  "IN_TRANSACTION (snd (with_transaction self body w))
     = transactions (snd (body (transaction_enter self w))) ! self"
  "transactions (snd (with_transaction self body w))
     = transactions (snd (body (transaction_enter self w)))"
proof -
  obtain r w2 where b: "body (transaction_enter self w) = (r, w2)"
    by (cases "body (transaction_enter self w)")
  obtain r3 w3 where x:
    "transaction_exit self (case r of Inl e \<Rightarrow> Some e | Inr _ \<Rightarrow> None) w2 = (r3, w3)"
    by (cases "transaction_exit self (case r of Inl e \<Rightarrow> Some e | Inr _ \<Rightarrow> None) w2")
  have k: "IN_TRANSACTION w3 = transactions w2 ! self" "transactions w3 = transactions w2"
    using transaction_exit_keeps [of self "case r of Inl e \<Rightarrow> Some e | Inr _ \<Rightarrow> None" w2] x
    by simp_all
  have "snd (with_transaction self body w) = w3"
    using b x by (cases r) (simp_all add: with_transaction_def split: sum.splits)
  then show "IN_TRANSACTION (snd (with_transaction self body w))
     = transactions (snd (body (transaction_enter self w))) ! self"
    and "transactions (snd (with_transaction self body w))
     = transactions (snd (body (transaction_enter self w)))"
    using k b by simp_all
qed

lemma with_transaction_commits:
  assumes "body (transaction_enter self w) = (Inr a, w2)" "\<not> driver_fails w2"
  shows "with_transaction self body w =
           (Inr a, (driver_called w2)\<lparr>committed := session w2,
                                        IN_TRANSACTION := transactions w2 ! self\<rparr>)"
  using assms
  by (simp add: with_transaction_def transaction_exit_def conn_commit_def)

lemma with_transaction_rolls_back:
  assumes "body (transaction_enter self w) = (Inl e, w2)" "\<not> driver_fails w2"
  shows "with_transaction self body w =
           (Inl e, (driver_called w2)\<lparr>session := committed w2,
                                        IN_TRANSACTION := transactions w2 ! self\<rparr>)"
  using assms
  by (simp add: with_transaction_def transaction_exit_def conn_rollback_def)

lemma with_transaction_propagates:
  assumes "body (transaction_enter self w) = (Inl e, w2)"
  shows "\<exists>e'. fst (with_transaction self body w) = Inl e'"
  using assms
  by (simp add: with_transaction_def split: prod.splits sum.splits)

lemma with_transaction_Inr:
  "with_transaction self body w = (Inr a, w') \<longleftrightarrow>
     (\<exists>w2. body (transaction_enter self w) = (Inr a, w2) \<and> \<not> driver_fails w2
        \<and> w' = (driver_called w2)\<lparr>committed := session w2,
                                    IN_TRANSACTION := transactions w2 ! self\<rparr>)"
  by (auto simp add: with_transaction_def transaction_exit_def
      conn_commit_def split: prod.splits sum.splits if_splits)

text \<open>The world in which the body of \<^verbatim>\<open>with transaction(conn):\<close> starts.\<close>

lemma with_new_transaction_unfold:
  "with_new_transaction body w =
     with_transaction (length (transactions w)) body
       (w\<lparr>transactions := transactions w @ [False]\<rparr>)"
  by (simp add: with_new_transaction_def and_then_def transaction_def)

lemma entered_new_fields:
  "session (transaction_enter (length (transactions w))
              (w\<lparr>transactions := transactions w @ [False]\<rparr>)) = session w"
  "committed (transaction_enter (length (transactions w))
              (w\<lparr>transactions := transactions w @ [False]\<rparr>)) = committed w"
  "faults (transaction_enter (length (transactions w))
              (w\<lparr>transactions := transactions w @ [False]\<rparr>)) = faults w"
  "IN_TRANSACTION (transaction_enter (length (transactions w))
              (w\<lparr>transactions := transactions w @ [False]\<rparr>))"
  "transactions (transaction_enter (length (transactions w))
              (w\<lparr>transactions := transactions w @ [False]\<rparr>))
     = transactions w @ [IN_TRANSACTION w]"
  by (simp_all add: transaction_enter_def)

lemma keeps_transactionsD:
  assumes "keeps_transactions m"
  shows "take (length (transactions w)) (transactions (snd (m w))) = transactions w"
    and "length (transactions w) \<le> length (transactions (snd (m w)))"
proof -
  show t: "take (length (transactions w)) (transactions (snd (m w))) = transactions w"
    using assms by (simp add: keeps_transactions_def)
  have "length (take (length (transactions w)) (transactions (snd (m w))))
          = length (transactions w)"
    by (simp only: t)
  then show "length (transactions w) \<le> length (transactions (snd (m w)))"
    by simp
qed

lemma keeps_transactions_execute: "keeps_transactions (execute sql)"
  by (simp add: keeps_transactions_def execute_transactions)

lemma keeps_transactions_execute_many: "keeps_transactions (execute_many sql ps)"
  by (simp add: keeps_transactions_def execute_many_transactions)

lemma keeps_transactions_returns: "keeps_transactions (returns a)"
  by (simp add: keeps_transactions_def returns_def)

lemma keeps_transactions_raises: "keeps_transactions (raises e)"
  by (simp add: keeps_transactions_def raises_def)

lemma keeps_transactions_and_then:
  assumes m: "keeps_transactions m" and f: "\<And>x. keeps_transactions (f x)"
  shows "keeps_transactions (and_then m f)"
  unfolding keeps_transactions_def
proof
  fix w
  obtain r w1 where mw: "m w = (r, w1)" by (cases "m w")
  have 1: "take (length (transactions w)) (transactions w1) = transactions w"
    and l1: "length (transactions w) \<le> length (transactions w1)"
    using keeps_transactionsD [OF m, of w] mw by simp_all
  show "take (length (transactions w)) (transactions (snd (and_then m f w))) = transactions w"
  proof (cases r)
    case (Inl e)
    then show ?thesis using mw 1 by (simp add: and_then_def)
  next
    case (Inr x)
    have 2: "take (length (transactions w1)) (transactions (snd (f x w1))) = transactions w1"
      using keeps_transactionsD(1) [OF f, of w1 x] by simp
    have "take (length (transactions w)) (transactions (snd (f x w1)))
            = take (length (transactions w))
                (take (length (transactions w1)) (transactions (snd (f x w1))))"
      using l1 by (simp add: min_def)
    also have "\<dots> = transactions w"
      unfolding 2 by (rule 1)
    finally show ?thesis
      using mw Inr by (simp add: and_then_def)
  qed
qed

lemma with_new_transaction_restores:
  assumes "keeps_transactions body"
  shows "IN_TRANSACTION (snd (with_new_transaction body w)) = IN_TRANSACTION w"
    and "keeps_transactions (with_new_transaction body)"
proof -
  let ?n = "\<lambda>w. length (transactions w)"
  let ?w1 = "\<lambda>w. transaction_enter (?n w) (w\<lparr>transactions := transactions w @ [False]\<rparr>)"
  have after: "take (Suc (?n w)) (transactions (snd (body (?w1 w))))
                 = transactions w @ [IN_TRANSACTION w]" for w
    using keeps_transactionsD(1) [OF assms, of "?w1 w"]
    by (simp add: entered_new_fields)
  have len: "Suc (?n w) \<le> length (transactions (snd (body (?w1 w))))" for w
    using keeps_transactionsD(2) [OF assms, of "?w1 w"]
    by (simp add: entered_new_fields)
  have "transactions (snd (body (?w1 w))) ! ?n w
          = take (Suc (?n w)) (transactions (snd (body (?w1 w)))) ! ?n w"
    by simp
  also have "\<dots> = IN_TRANSACTION w"
    unfolding after by simp
  finally show "IN_TRANSACTION (snd (with_new_transaction body w)) = IN_TRANSACTION w"
    unfolding with_new_transaction_unfold with_transaction_keeps .
  show "keeps_transactions (with_new_transaction body)"
    unfolding keeps_transactions_def
  proof
    fix w
    have "take (?n w) (transactions (snd (body (?w1 w))))
            = take (?n w) (take (Suc (?n w)) (transactions (snd (body (?w1 w)))))"
      by (simp add: min_def)
    also have "\<dots> = transactions w"
      unfolding after by simp
    finally show "take (?n w) (transactions (snd (with_new_transaction body w)))
                    = transactions w"
      unfolding with_new_transaction_unfold with_transaction_keeps .
  qed
qed

text \<open>
  C10, as stated, fails for one Transaction object entered again inside its own scope:
  the inner \<^verbatim>\<open>__enter__\<close> overwrites \<open>_prev\<close> with True, and the outer exit leaves
  the flag set although it was off before the outer scope.
\<close>

theorem transaction_reentered_counterexample:
  "\<not> IN_TRANSACTION (example_world [])
   \<and> IN_TRANSACTION
       (snd (and_then transaction
               (\<lambda>t. with_transaction t (with_transaction t (returns ())))
               (example_world [])))"
  by (simp add: example_world_def and_then_def transaction_def with_transaction_def
      transaction_enter_def transaction_exit_def returns_def conn_commit_def
      driver_fails_def driver_called_def)

text \<open>
  C10, amended. The body of a transaction scope runs with the flag set. When the body
  completes, the scope commits (the session's view becomes the committed one) and
  returns the body's result; when the body raises, the scope rolls back (the session's
  view returns to the committed one) and the exception reaches the caller, and even when
  the rollback itself fails an exception reaches the caller. On exit the flag is set
  to the value that the scope's Transaction object holds in \<open>_prev\<close>. For
  \<^verbatim>\<open>with transaction(conn):\<close>, which creates a new object for every scope, and a body
  that leaves the existing objects alone, that is the value the flag had on entry, and
  such a scope in turn leaves the existing objects alone, so the same holds for such
  scopes nested to any depth; execute, execute\_many and their sequences leave the
  objects alone. While the flag is set neither execute nor execute\_many commits.
\<close>

theorem transaction_scope:
  "IN_TRANSACTION (transaction_enter self w)
   \<and> IN_TRANSACTION (snd (with_transaction self body w))
       = transactions (snd (body (transaction_enter self w))) ! self
   \<and> (body (transaction_enter self w) = (Inr a, w2) \<and> \<not> driver_fails w2 \<longrightarrow>
        with_transaction self body w =
          (Inr a, (driver_called w2)\<lparr>committed := session w2,
                                       IN_TRANSACTION := transactions w2 ! self\<rparr>))
   \<and> (body (transaction_enter self w) = (Inl e, w2) \<and> \<not> driver_fails w2 \<longrightarrow>
        with_transaction self body w =
          (Inl e, (driver_called w2)\<lparr>session := committed w2,
                                       IN_TRANSACTION := transactions w2 ! self\<rparr>))
   \<and> (body (transaction_enter self w) = (Inl e, w2) \<longrightarrow>
        (\<exists>e'. fst (with_transaction self body w) = Inl e'))
   \<and> (keeps_transactions scoped \<longrightarrow>
        IN_TRANSACTION (snd (with_new_transaction scoped w)) = IN_TRANSACTION w
        \<and> keeps_transactions (with_new_transaction scoped))
   \<and> keeps_transactions (execute sql)
   \<and> keeps_transactions (execute_many sqlm many_params)
   \<and> (keeps_transactions m \<and> (\<forall>x. keeps_transactions (f x)) \<longrightarrow>
        keeps_transactions (and_then m f))
   \<and> (IN_TRANSACTION w \<longrightarrow>
        committed (snd (execute sql w)) = committed w
        \<and> committed (snd (execute_many sqlm many_params w)) = committed w)"
proof -
  have 1: "IN_TRANSACTION (transaction_enter self w)"
    by (simp add: transaction_enter_def)
  have 3: "body (transaction_enter self w) = (Inr a, w2) \<and> \<not> driver_fails w2 \<longrightarrow>
        with_transaction self body w =
          (Inr a, (driver_called w2)\<lparr>committed := session w2,
                                       IN_TRANSACTION := transactions w2 ! self\<rparr>)"
    using with_transaction_commits [of body self w a w2] by simp
  have 4: "body (transaction_enter self w) = (Inl e, w2) \<and> \<not> driver_fails w2 \<longrightarrow>
        with_transaction self body w =
          (Inl e, (driver_called w2)\<lparr>session := committed w2,
                                       IN_TRANSACTION := transactions w2 ! self\<rparr>)"
    using with_transaction_rolls_back [of body self w e w2] by simp
  have 5: "body (transaction_enter self w) = (Inl e, w2) \<longrightarrow>
        (\<exists>e'. fst (with_transaction self body w) = Inl e')"
    using with_transaction_propagates [of body self w e w2] by simp
  have 6: "keeps_transactions scoped \<longrightarrow>
        IN_TRANSACTION (snd (with_new_transaction scoped w)) = IN_TRANSACTION w
        \<and> keeps_transactions (with_new_transaction scoped)"
    using with_new_transaction_restores(1) [of scoped w]
      with_new_transaction_restores(2) [of scoped] by simp
  have 7: "keeps_transactions m \<and> (\<forall>x. keeps_transactions (f x)) \<longrightarrow>
        keeps_transactions (and_then m f)"
    using keeps_transactions_and_then [of m f] by simp
  have 8: "IN_TRANSACTION w \<longrightarrow>
        committed (snd (execute sql w)) = committed w
        \<and> committed (snd (execute_many sqlm many_params w)) = committed w"
    by (simp add: execute_in_transaction execute_many_in_transaction)
  show ?thesis
    by (intro conjI 1 3 4 5 6 7 8 with_transaction_keeps(1) keeps_transactions_execute
        keeps_transactions_execute_many)
qed

theorem transaction_scope_witness:
  "with_transaction 0 (execute (sql_insert_race ''Desert Loop''))
       ((example_world [])\<lparr>transactions := [False]\<rparr>) =
     (Inr 1,
      \<lparr>committed = example_tables
         \<lparr>RACES := [\<lparr>RACE_ID = 1, TRACK_NAME = ''Desert Loop'', WINNER_TEAM_ID = None\<rparr>],
          RACE_ID_SEQ := 2\<rparr>,
       session = example_tables
         \<lparr>RACES := [\<lparr>RACE_ID = 1, TRACK_NAME = ''Desert Loop'', WINNER_TEAM_ID = None\<rparr>],
          RACE_ID_SEQ := 2\<rparr>,
       IN_TRANSACTION = False, faults = [], transactions = [False]\<rparr>)
   \<and> with_transaction 0
         (and_then (execute (sql_insert_race ''Desert Loop'')) (\<lambda>_. raises KeyError))
         ((example_world [])\<lparr>transactions := [False]\<rparr>)
       = (Inl KeyError, (example_world [])\<lparr>transactions := [False]\<rparr>)
   \<and> IN_TRANSACTION
         (snd (with_new_transaction
                 (and_then (with_new_transaction (execute (sql_insert_race ''Desert Loop'')))
                    (\<lambda>_. execute (sql_insert_race ''Forest Run'')))
                 (example_world [])))
       = IN_TRANSACTION (example_world [])
   \<and> committed (snd (execute (sql_insert_race ''Desert Loop'')
                        ((example_world [])\<lparr>IN_TRANSACTION := True\<rparr>))) = example_tables"
proof -
  let ?w = "(example_world [])\<lparr>transactions := [False]\<rparr>"
  let ?t = "example_tables
         \<lparr>RACES := [\<lparr>RACE_ID = 1, TRACK_NAME = ''Desert Loop'', WINNER_TEAM_ID = None\<rparr>],
          RACE_ID_SEQ := 2\<rparr>"
  let ?w2 = "\<lparr>committed = example_tables, session = ?t, IN_TRANSACTION = True, faults = [],
              transactions = [False]\<rparr>"
  let ?one = "execute (sql_insert_race ''Desert Loop'')"
  let ?two = "execute (sql_insert_race ''Forest Run'')"
  have ok: "?one (transaction_enter 0 ?w) = (Inr 1, ?w2) \<and> \<not> driver_fails ?w2"
    by (simp add: transaction_enter_def io_defs example_world_def example_tables_def
        sql_insert_race_def)
  have bad: "and_then ?one (\<lambda>_. raises KeyError) (transaction_enter 0 ?w) = (Inl KeyError, ?w2)
            \<and> \<not> driver_fails ?w2"
    by (simp add: transaction_enter_def io_defs example_world_def example_tables_def
        sql_insert_race_def)
  have flag: "IN_TRANSACTION ((example_world [])\<lparr>IN_TRANSACTION := True\<rparr>)"
    by simp
  have 1: "with_transaction 0 ?one ?w =
             (Inr 1, (driver_called ?w2)\<lparr>committed := session ?w2,
                                          IN_TRANSACTION := transactions ?w2 ! 0\<rparr>)"
    by (rule transaction_scope [where w = ?w and self = 0 and body = ?one and a = 1
          and ?w2.0 = ?w2,
          THEN conjunct2, THEN conjunct2, THEN conjunct1, THEN mp, OF ok])
  have 2: "with_transaction 0 (and_then ?one (\<lambda>_. raises KeyError)) ?w =
             (Inl KeyError, (driver_called ?w2)\<lparr>session := committed ?w2,
                                          IN_TRANSACTION := transactions ?w2 ! 0\<rparr>)"
    by (rule transaction_scope [where w = ?w and self = 0
          and body = "and_then ?one (\<lambda>_. raises KeyError)"
          and e = KeyError and ?w2.0 = ?w2,
          THEN conjunct2, THEN conjunct2, THEN conjunct2, THEN conjunct1, THEN mp, OF bad])
  have k1: "keeps_transactions ?one"
    by (rule transaction_scope [where sql = "sql_insert_race ''Desert Loop''",
          THEN conjunct2, THEN conjunct2, THEN conjunct2, THEN conjunct2, THEN conjunct2,
          THEN conjunct2, THEN conjunct1])
  have k2: "keeps_transactions ?two"
    by (rule transaction_scope [where sql = "sql_insert_race ''Forest Run''",
          THEN conjunct2, THEN conjunct2, THEN conjunct2, THEN conjunct2, THEN conjunct2,
          THEN conjunct2, THEN conjunct1])
  have k3: "keeps_transactions (with_new_transaction ?one)"
    by (rule transaction_scope [where scoped = ?one,
          THEN conjunct2, THEN conjunct2, THEN conjunct2, THEN conjunct2, THEN conjunct2,
          THEN conjunct1, THEN mp, OF k1, THEN conjunct2])
  have k4: "keeps_transactions (with_new_transaction ?one) \<and> (\<forall>x::int. keeps_transactions ?two)"
    using k2 k3 by simp
  have k5: "keeps_transactions (and_then (with_new_transaction ?one) (\<lambda>_. ?two))"
    by (rule transaction_scope [where m = "with_new_transaction ?one" and f = "\<lambda>_. ?two",
          THEN conjunct2, THEN conjunct2, THEN conjunct2, THEN conjunct2, THEN conjunct2,
          THEN conjunct2, THEN conjunct2, THEN conjunct2, THEN conjunct1, THEN mp, OF k4])
  have 3: "IN_TRANSACTION
             (snd (with_new_transaction (and_then (with_new_transaction ?one) (\<lambda>_. ?two))
                     (example_world [])))
           = IN_TRANSACTION (example_world [])"
    by (rule transaction_scope [where scoped = "and_then (with_new_transaction ?one) (\<lambda>_. ?two)"
          and w = "example_world []",
          THEN conjunct2, THEN conjunct2, THEN conjunct2, THEN conjunct2, THEN conjunct2,
          THEN conjunct1, THEN mp, OF k5, THEN conjunct1])
  have 4: "committed (snd (?one ((example_world [])\<lparr>IN_TRANSACTION := True\<rparr>)))
             = committed ((example_world [])\<lparr>IN_TRANSACTION := True\<rparr>)"
    by (rule transaction_scope [where w = "(example_world [])\<lparr>IN_TRANSACTION := True\<rparr>"
          and sql = "sql_insert_race ''Desert Loop''",
          THEN conjunct2, THEN conjunct2, THEN conjunct2, THEN conjunct2, THEN conjunct2,
          THEN conjunct2, THEN conjunct2, THEN conjunct2, THEN conjunct2, THEN mp, OF flag,
          THEN conjunct1])
  show ?thesis
    using 1 2 3 4 by (simp add: driver_called_def example_world_def)
qed

section \<open>The race page\<close>

lemma sql_select_cars_empty: "CARS t = [] \<Longrightarrow> sql_select_cars t = []"
  by (simp add: sql_select_cars_def)

lemma start_race_empty: "start_race tn fee prize us [] w = (Inl NoCarsAvailable, w)"
  by (simp add: start_race_def raises_def)

lemma fetch_all_result:
  "fetch_all q w = (if driver_fails w then (Inl DatabaseError, driver_called w)
                    else (Inr (q (session w)), driver_called w))"
  by (simp add: fetch_all_def cursor_execute_def driver_called_def)

text \<open>
  C8. Starting a race on an empty roster stops with the "no cars available" condition and
  changes nothing: the handler of the button, given an empty roster, returns that
  condition in the same world; and the race page on a database without cars ends in an
  exception with the committed tables, the session's tables and the flag as they were
  (no race row, no result row, no budget change), the exception being the "no cars
  available" condition when the track is in the catalog and the two reads succeed.
\<close>

theorem empty_roster_no_effect:
  assumes "CARS (session w) = []"
  shows "start_race tn fee prize us [] w = (Inl NoCarsAvailable, w)
       \<and> (\<exists>e w'. race_page tn fee prize us w = (Inl e, w')
            \<and> committed w' = committed w \<and> session w' = session w
            \<and> IN_TRANSACTION w' = IN_TRANSACTION w)
       \<and> (map_of build_track_catalog tn \<noteq> None \<and> \<not> driver_fails w
            \<and> \<not> driver_fails (driver_called w)
          \<longrightarrow> fst (race_page tn fee prize us w) = Inl NoCarsAvailable)"
  using assms
  by (auto simp add: start_race_empty race_page_def get_all_cars_def get_all_teams_def fetch_all_result
      and_then_def raises_def sql_select_cars_empty start_race_empty split: option.splits)

theorem empty_roster_no_effect_witness:
  "CARS (session no_cars_world) = []
   \<and> start_race ''Forest Run'' 1000 5000 fixed_draws [] no_cars_world
       = (Inl NoCarsAvailable, no_cars_world)
   \<and> fst (race_page ''Forest Run'' 1000 5000 fixed_draws no_cars_world) = Inl NoCarsAvailable
   \<and> committed (snd (race_page ''Forest Run'' 1000 5000 fixed_draws no_cars_world))
       = committed no_cars_world
   \<and> session (snd (race_page ''Forest Run'' 1000 5000 fixed_draws no_cars_world))
       = session no_cars_world"
proof -
  have h: "CARS (session no_cars_world) = []"
    by (simp add: no_cars_world_def)
  have g: "map_of build_track_catalog ''Forest Run'' \<noteq> None
           \<and> \<not> driver_fails no_cars_world \<and> \<not> driver_fails (driver_called no_cars_world)"
    by (simp add: build_track_catalog_def driver_fails_def driver_called_def no_cars_world_def)
  show ?thesis
    using h g empty_roster_no_effect [OF h, of "''Forest Run''" 1000 5000 fixed_draws]
    by auto
qed

lemma execute_Inr:
  "execute sql w = (Inr n, w') \<Longrightarrow>
     n = fst (sql (session w)) \<and> session w' = snd (sql (session w))
     \<and> IN_TRANSACTION w' = IN_TRANSACTION w
     \<and> committed w' = (if IN_TRANSACTION w then committed w else session w')"
  by (auto simp add: execute_def and_then_Inr cursor_execute_Inr conn_commit_Inr returns_Inr
      split: if_splits)

lemma execute_many_Inr:
  "execute_many sql ps w = (Inr n, w') \<Longrightarrow>
     n = fst (run_many sql ps (session w)) \<and> session w' = snd (run_many sql ps (session w))
     \<and> IN_TRANSACTION w' = IN_TRANSACTION w
     \<and> committed w' = (if IN_TRANSACTION w then committed w else session w')"
  by (auto simp add: execute_many_def and_then_Inr cursor_execute_Inr conn_commit_Inr returns_Inr
      split: if_splits)

lemma run_many_snd_Cons:
  "snd (run_many stmt (p # ps) t) = snd (run_many stmt ps (snd (stmt p t)))"
  by (simp split: prod.splits)

lemma sql_insert_race_result_snd:
  "snd (sql_insert_race_result p t) = t\<lparr>RACE_RESULTS := RACE_RESULTS t @ [result_of_param p]\<rparr>"
  by (simp add: sql_insert_race_result_def)

lemma run_many_insert_results:
  "snd (run_many sql_insert_race_result ps t) =
     t\<lparr>RACE_RESULTS := RACE_RESULTS t @ map result_of_param ps\<rparr>"
proof (induction ps arbitrary: t)
  case Nil
  show ?case by simp
next
  case (Cons p ps)
  show ?case
    unfolding run_many_snd_Cons Cons sql_insert_race_result_snd by simp
qed

lemma create_race_Inr:
  assumes "create_race tn w = (Inr r, w1)"
  shows "session w1 = snd (sql_insert_race tn (session w))
       \<and> r = sql_max_race_id (session w1)
       \<and> IN_TRANSACTION w1 = IN_TRANSACTION w
       \<and> (\<not> IN_TRANSACTION w \<longrightarrow> committed w1 = session w1)"
proof -
  obtain n w0 where e: "execute (sql_insert_race tn) w = (Inr n, w0)"
    and f: "fetch_one_value sql_max_race_id w0 = (Inr r, w1)"
    using assms by (auto simp add: create_race_def and_then_Inr)
  from f have "r = sql_max_race_id (session w0)" "session w1 = session w0"
    "committed w1 = committed w0" "IN_TRANSACTION w1 = IN_TRANSACTION w0"
    by (auto simp add: fetch_one_value_def cursor_execute_Inr)
  then show ?thesis
    using execute_Inr [OF e] by simp
qed

lemma settlement_block_Inr:
  assumes "settlement_block race_id payload win fee prize w = (Inr n, w')"
  shows "\<exists>rid. race_id = Some rid
       \<and> session w' =
           snd (sql_credit_winner_prize prize win
             (snd (sql_pay_participation_fee fee
               (snd (sql_set_race_winner win rid
                 (snd (run_many sql_insert_race_result
                         (map (\<lambda>(car_id, time_taken, position).
                                 (rid, car_id, time_taken, position)) payload)
                         (session w))))))))
       \<and> IN_TRANSACTION w' = IN_TRANSACTION w"
proof (cases race_id)
  case None
  then show ?thesis
    using assms by (simp add: settlement_block_def py_int_def raises_def)
next
  case (Some rid)
  from assms obtain n1 w1 n2 w2 n3 w3 where
    1: "insert_race_results rid payload w = (Inr n1, w1)" and
    2: "set_race_winner rid win w1 = (Inr n2, w2)" and
    3: "pay_participation_fee_for_all_teams_with_cars fee w2 = (Inr n3, w3)" and
    4: "credit_winner_prize win prize w3 = (Inr n, w')"
    by (auto simp add: settlement_block_def Some py_int_def and_then_Inr)
  show ?thesis
    using execute_many_Inr [OF 1 [unfolded insert_race_results_def Let_def]]
      execute_Inr [OF 2 [unfolded set_race_winner_def]]
      execute_Inr [OF 3 [unfolded pay_participation_fee_for_all_teams_with_cars_def]]
      execute_Inr [OF 4 [unfolded credit_winner_prize_def]] Some
    by simp
qed

lemma keeps_transactions_settlement_block:
  "keeps_transactions (settlement_block race_id payload win fee prize)"
proof (cases race_id)
  case None
  then show ?thesis
    by (simp add: settlement_block_def py_int_def keeps_transactions_raises)
next
  case (Some rid)
  then show ?thesis
    by (simp add: settlement_block_def py_int_def insert_race_results_def set_race_winner_def
        pay_participation_fee_for_all_teams_with_cars_def credit_winner_prize_def
        keeps_transactions_and_then keeps_transactions_execute
        keeps_transactions_execute_many)
qed

lemma fetch_all_Inr:
  "fetch_all q w = (Inr r, w') \<longleftrightarrow>
     \<not> driver_fails w \<and> r = q (session w) \<and> w' = driver_called w"
  by (auto simp add: fetch_all_result)

lemma start_race_Inr:
  assumes "start_race tn fee prize us df_c w = (Inr (race_id, win), w')"
  shows "\<exists>track rows first rest rid.
           map_of build_track_catalog tn = Some track
         \<and> calc_car_times (fst track) us 0 df_c = Inr rows
         \<and> sort_key row_TIME_MIN rows = first # rest
         \<and> win = row_TEAM_ID first
         \<and> race_id = Some rid
         \<and> sql_max_race_id (snd (sql_insert_race tn (session w))) = Some rid
         \<and> session w' =
             snd (sql_credit_winner_prize prize win
               (snd (sql_pay_participation_fee fee
                 (snd (sql_set_race_winner win rid
                   (snd (run_many sql_insert_race_result
                           (map (\<lambda>(car_id, time_taken, position).
                                   (rid, car_id, time_taken, position))
                              (results_payload_of (first # rest)))
                           (snd (sql_insert_race tn (session w))))))))))
         \<and> committed w' = session w'
         \<and> IN_TRANSACTION w' = IN_TRANSACTION w"
proof -
  from assms have ne: "df_c \<noteq> []"
    by (auto simp add: start_race_def raises_def)
  from assms ne obtain r1 w1 where
    cr: "create_race tn w = (Inr r1, w1)" and
    rest1: "(case map_of build_track_catalog tn of
            None \<Rightarrow> raises KeyError
          | Some track \<Rightarrow>
              (case calc_car_times (fst track) us 0 df_c of
                 Inl e \<Rightarrow> raises e
               | Inr rows \<Rightarrow>
                   (let rows_sorted = sort_key row_TIME_MIN rows;
                        results_payload = results_payload_of rows_sorted
                    in case rows_sorted of
                         [] \<Rightarrow> raises IndexError
                       | first # _ \<Rightarrow>
                           (let winner_team_id = row_TEAM_ID first
                            in and_then
                                 (with_new_transaction
                                    (settlement_block r1 results_payload
                                       winner_team_id fee prize))
                                 (\<lambda>_. returns (r1, winner_team_id)))))) w1 = (Inr (race_id, win), w')"
    by (auto simp add: start_race_def and_then_Inr)
  from rest1 obtain track where tr: "map_of build_track_catalog tn = Some track"
    by (cases "map_of build_track_catalog tn") (auto simp add: raises_def)
  from rest1 tr obtain rows where rows: "calc_car_times (fst track) us 0 df_c = Inr rows"
    by (cases "calc_car_times (fst track) us 0 df_c") (auto simp add: raises_def)
  from rest1 tr rows obtain first rest where srt: "sort_key row_TIME_MIN rows = first # rest"
    by (cases "sort_key row_TIME_MIN rows") (auto simp add: raises_def Let_def)
  from rest1 tr rows srt obtain n w2 where
    wt: "with_new_transaction (settlement_block r1 (results_payload_of (first # rest))
           (row_TEAM_ID first) fee prize) w1 = (Inr n, w2)" and
    fin: "race_id = r1" "win = row_TEAM_ID first" "w' = w2"
    by (auto simp add: Let_def and_then_Inr returns_Inr)
  let ?entered = "transaction_enter (length (transactions w1))
                    (w1\<lparr>transactions := transactions w1 @ [False]\<rparr>)"
  from wt obtain w3 where
    blk: "settlement_block r1 (results_payload_of (first # rest)) (row_TEAM_ID first) fee prize
            ?entered = (Inr n, w3)" and
    w2s: "session w2 = session w3" "committed w2 = session w3"
    by (auto simp add: with_new_transaction_unfold with_transaction_Inr)
  have w2f: "IN_TRANSACTION w2 = IN_TRANSACTION w1"
    using with_new_transaction_restores(1) [OF keeps_transactions_settlement_block, of r1
        "results_payload_of (first # rest)" "row_TEAM_ID first" fee prize w1] wt
    by simp
  note w2 = w2s w2f
  from settlement_block_Inr [OF blk] obtain rid where
    rid: "r1 = Some rid" and
    s3: "session w3 =
           snd (sql_credit_winner_prize prize (row_TEAM_ID first)
             (snd (sql_pay_participation_fee fee
               (snd (sql_set_race_winner (row_TEAM_ID first) rid
                 (snd (run_many sql_insert_race_result
                         (map (\<lambda>(car_id, time_taken, position).
                                 (rid, car_id, time_taken, position))
                            (results_payload_of (first # rest)))
                         (session w1))))))))"
    by (auto simp add: entered_new_fields)
  have a: "sql_max_race_id (snd (sql_insert_race tn (session w))) = Some rid"
    using create_race_Inr [OF cr] rid by simp
  have b: "session w' =
             snd (sql_credit_winner_prize prize win
               (snd (sql_pay_participation_fee fee
                 (snd (sql_set_race_winner win rid
                   (snd (run_many sql_insert_race_result
                           (map (\<lambda>(car_id, time_taken, position).
                                   (rid, car_id, time_taken, position))
                              (results_payload_of (first # rest)))
                           (snd (sql_insert_race tn (session w))))))))))"
    using create_race_Inr [OF cr] s3 w2 fin by simp
  have c: "committed w' = session w'" "IN_TRANSACTION w' = IN_TRANSACTION w"
    using create_race_Inr [OF cr] w2 fin by simp_all
  have d: "race_id = Some rid"
    using fin rid by simp
  show ?thesis
    using tr rows srt fin(2) d a b c by blast
qed

lemma race_page_Inr:
  assumes "race_page tn fee prize us w = (Inr r, w')"
  shows "\<exists>w0. start_race tn fee prize us (sql_select_cars (session w)) w0 = (Inr r, w')
            \<and> session w0 = session w \<and> committed w0 = committed w
            \<and> IN_TRANSACTION w0 = IN_TRANSACTION w"
  using assms
  by (cases "map_of build_track_catalog tn")
    (auto simp add: race_page_def raises_def and_then_Inr get_all_cars_def get_all_teams_def
      fetch_all_Inr)

section \<open>A failure inside the settlement block\<close>

lemma fetch_all_ok:
  "faults w = False # fs \<Longrightarrow> fetch_all q w = (Inr (q (session w)), w\<lparr>faults := fs\<rparr>)"
  by (simp add: fetch_all_result driver_called_def driver_fails_def)

lemma fetch_one_value_ok:
  "faults w = False # fs \<Longrightarrow> fetch_one_value q w = (Inr (q (session w)), w\<lparr>faults := fs\<rparr>)"
  by (simp add: fetch_one_value_def cursor_execute_def driver_called_def driver_fails_def)

lemma execute_ok_autocommit:
  "\<not> IN_TRANSACTION w \<Longrightarrow> faults w = False # False # fs \<Longrightarrow>
     execute sql w = (Inr (fst (sql (session w))),
                      w\<lparr>committed := snd (sql (session w)), session := snd (sql (session w)),
                        faults := fs\<rparr>)"
  by (simp add: execute_def and_then_def cursor_execute_def conn_commit_def returns_def
      driver_called_def driver_fails_def split: prod.splits)

lemma execute_ok_in_transaction:
  "IN_TRANSACTION w \<Longrightarrow> faults w = False # fs \<Longrightarrow>
     execute sql w = (Inr (fst (sql (session w))),
                      w\<lparr>session := snd (sql (session w)), faults := fs\<rparr>)"
  by (simp add: execute_def and_then_def cursor_execute_def returns_def
      driver_called_def driver_fails_def split: prod.splits)

lemma execute_many_ok_in_transaction:
  "IN_TRANSACTION w \<Longrightarrow> faults w = False # fs \<Longrightarrow>
     execute_many sql ps w = (Inr (fst (run_many sql ps (session w))),
                      w\<lparr>session := snd (run_many sql ps (session w)), faults := fs\<rparr>)"
  by (simp add: execute_many_def and_then_def cursor_execute_def returns_def
      driver_called_def driver_fails_def split: prod.splits)

lemma execute_fails:
  "faults w = True # fs \<Longrightarrow> execute sql w = (Inl DatabaseError, w\<lparr>faults := fs\<rparr>)"
  by (simp add: execute_def and_then_def cursor_execute_def driver_called_def driver_fails_def)

lemma execute_many_fails:
  "faults w = True # fs \<Longrightarrow> execute_many sql ps w = (Inl DatabaseError, w\<lparr>faults := fs\<rparr>)"
  by (simp add: execute_many_def and_then_def cursor_execute_def driver_called_def driver_fails_def)

lemma settlement_block_fails:
  assumes "IN_TRANSACTION w" "faults w = replicate j False @ True # fs" "j \<le> 3"
  shows "\<exists>w2. settlement_block (Some rid) payload win fee prize w = (Inl DatabaseError, w2)
            \<and> committed w2 = committed w \<and> faults w2 = fs \<and> IN_TRANSACTION w2
            \<and> transactions w2 = transactions w"
proof -
  from assms(3) consider "j = 0" | "j = 1" | "j = 2" | "j = 3" by linarith
  then show ?thesis
  proof cases
    case 1
    then have f: "faults w = True # fs" using assms by simp
    show ?thesis
      by (simp add: settlement_block_def py_int_def insert_race_results_def
          execute_many_fails [OF f] and_then_def assms)
  next
    case 2
    then have f: "faults w = False # True # fs" using assms by simp
    show ?thesis
      using assms(1)
      by (simp add: settlement_block_def py_int_def insert_race_results_def set_race_winner_def
          execute_many_ok_in_transaction [OF assms(1) f] execute_fails and_then_def)
  next
    case 3
    then have f: "faults w = False # False # True # fs"
      using assms by (simp add: numeral_2_eq_2)
    show ?thesis
      using assms(1)
      by (simp add: settlement_block_def py_int_def insert_race_results_def set_race_winner_def
          pay_participation_fee_for_all_teams_with_cars_def
          execute_many_ok_in_transaction [OF assms(1) f] execute_ok_in_transaction
          execute_fails and_then_def)
  next
    case 4
    then have f: "faults w = False # False # False # True # fs"
      using assms by (simp add: numeral_3_eq_3)
    show ?thesis
      using assms(1)
      by (simp add: settlement_block_def py_int_def insert_race_results_def set_race_winner_def
          pay_participation_fee_for_all_teams_with_cars_def credit_winner_prize_def
          execute_many_ok_in_transaction [OF assms(1) f] execute_ok_in_transaction
          execute_fails and_then_def)
  qed
qed

lemma max_of_None: "max_of xs = None \<longleftrightarrow> xs = []"
  by (induction xs) (auto split: option.splits)

lemma calc_car_times_total:
  "\<forall>r\<in>set df. CAR_TEAM_ID (fst r) \<noteq> None \<Longrightarrow>
     \<exists>rows. calc_car_times f us i df = Inr rows \<and> length rows = length df"
proof (induction df arbitrary: i)
  case Nil
  show ?case by simp
next
  case (Cons r df)
  from Cons.prems obtain tid where tid: "CAR_TEAM_ID (fst r) = Some tid" by auto
  from Cons.prems have "\<forall>r\<in>set df. CAR_TEAM_ID (fst r) \<noteq> None" by simp
  from Cons.IH [OF this, of "Suc i"] obtain rows where
    rows: "calc_car_times f us (Suc i) df = Inr rows" "length rows = length df" by blast
  obtain t where t: "simulate_time_minutes (SPEED (fst r)) (DURABILITY (fst r))
      (ACCELERATION (fst r)) f default_variability default_distance_km (us i) = Inr t"
    using simulate_time_minutes_eq [of _ _ _ _ "fst default_variability" "snd default_variability"]
    by simp
  show ?case
    by (simp add: t tid py_int_def rows)
qed

lemma left_join_team_fst: "fst ` set (left_join_team teams c) = {c}"
  by (cases "filter (\<lambda>t. CAR_TEAM_ID c = Some (TEAM_ID t)) teams")
    (auto simp add: left_join_team_def image_iff)

lemma sql_select_cars_fst: "fst ` set (sql_select_cars t) = set (CARS t)"
proof -
  have "fst ` set (concat (map (left_join_team (TEAMS t)) (CARS t))) = set (CARS t)"
    using left_join_team_fst [of "TEAMS t"] by (auto simp add: image_UN)
  then show ?thesis
    by (simp add: sql_select_cars_def)
qed

lemma sql_select_cars_Nil: "sql_select_cars t = [] \<longleftrightarrow> CARS t = []"
  using sql_select_cars_fst [of t] by (metis image_is_empty set_empty)

lemma create_race_ok:
  assumes "\<not> IN_TRANSACTION w" "faults w = False # False # False # fs"
  shows "create_race tn w =
           (Inr (sql_max_race_id (snd (sql_insert_race tn (session w)))),
            w\<lparr>committed := snd (sql_insert_race tn (session w)),
              session := snd (sql_insert_race tn (session w)), faults := fs\<rparr>)"
proof -
  have "faults w = False # False # (False # fs)" using assms by simp
  from execute_ok_autocommit [OF assms(1) this]
  show ?thesis
    by (simp add: create_race_def and_then_def fetch_one_value_ok)
qed

lemma start_race_steps:
  assumes "df_c \<noteq> []" "map_of build_track_catalog tn = Some track"
    "calc_car_times (fst track) us 0 df_c = Inr rows"
    "sort_key row_TIME_MIN rows = first # rest"
    "create_race tn w = (Inr race_id, w1)"
  shows "start_race tn fee prize us df_c w =
           and_then (with_new_transaction
                       (settlement_block race_id (results_payload_of (first # rest))
                          (row_TEAM_ID first) fee prize))
                    (\<lambda>_. returns (race_id, row_TEAM_ID first)) w1"
  using assms by (simp add: start_race_def and_then_def Let_def)

lemmas page_defs = race_page_def start_race_def settlement_block_def create_race_def
  get_all_cars_def get_all_teams_def insert_race_results_def set_race_winner_def
  pay_participation_fee_for_all_teams_with_cars_def credit_winner_prize_def
  with_new_transaction_def transaction_def with_transaction_def transaction_enter_def
  transaction_exit_def sql_select_cars_def sql_select_teams_def left_join_team_def sql_insert_race_def
  sql_max_race_id_def sql_set_race_winner_def sql_insert_race_result_def result_of_param_def
  sql_pay_participation_fee_def sql_credit_winner_prize_def build_track_catalog_def
  py_int_def results_payload_of_def enumerate_eq_zip
  simulate_time_minutes_def default_variability_def default_distance_km_def
  random_uniform_def py_truediv_def py_round_def round_half_even_def
  example_world_def example_tables_def fixed_draws_def

text \<open>
  C1, as stated, fails: here credit\_winner\_prize raises (the ninth driver call) and the
  rollback succeeds. Budgets and results are as before, but the races table, empty
  before, now holds the race created in step 2, committed and without a winner.
\<close>

theorem settlement_rollback_counterexample:
  "RACES (session (example_world [False, False, False, False, False, False, False, False,
                                  True, False])) = []
   \<and> race_page ''Asphalt Sprint'' 1000 5000 fixed_draws
         (example_world [False, False, False, False, False, False, False, False, True, False])
       = (Inl DatabaseError,
          \<lparr>committed = example_tables
             \<lparr>RACES := [\<lparr>RACE_ID = 1, TRACK_NAME = ''Asphalt Sprint'',
                          WINNER_TEAM_ID = None\<rparr>],
              RACE_ID_SEQ := 2\<rparr>,
           session = example_tables
             \<lparr>RACES := [\<lparr>RACE_ID = 1, TRACK_NAME = ''Asphalt Sprint'',
                          WINNER_TEAM_ID = None\<rparr>],
              RACE_ID_SEQ := 2\<rparr>,
           IN_TRANSACTION = False, faults = [], transactions = [False]\<rparr>)"
  by (simp add: page_defs io_defs Let_def)

text \<open>
  C1, amended. When exactly one of the four writes of the settlement block fails (the
  driver call number \<open>k\<close> of the page, counted from 0, with \<open>k\<close> from 5 to 8:
  insert\_race\_results, set\_race\_winner, the participation fee or the winner's prize)
  and the rollback succeeds, the page ends in that exception, and afterwards the teams
  (so every budget), the cars and the race results are as before, committed and
  session views agree and the flag is off; the race row created before the block,
  with no winner, stays: create\_race ran outside the scope and committed at once.
\<close>

theorem settlement_failure_rolls_back:
  assumes track: "map_of build_track_catalog tn = Some track"
    and cars: "CARS (session w) \<noteq> []"
    and teams: "\<forall>c\<in>set (CARS (session w)). CAR_TEAM_ID c \<noteq> None"
    and flag: "\<not> IN_TRANSACTION w"
    and fault: "faults w = replicate k False @ True # False # fs"
    and k: "5 \<le> k" "k \<le> 8"
  shows "\<exists>w'. race_page tn fee prize us w = (Inl DatabaseError, w')
            \<and> TEAMS (session w') = TEAMS (session w)
            \<and> CARS (session w') = CARS (session w)
            \<and> RACE_RESULTS (session w') = RACE_RESULTS (session w)
            \<and> RACES (session w') =
                RACES (session w) @
                  [\<lparr>RACE_ID = RACE_ID_SEQ (session w), TRACK_NAME = tn, WINNER_TEAM_ID = None\<rparr>]
            \<and> committed w' = session w'
            \<and> \<not> IN_TRANSACTION w'"
proof -
  let ?df = "sql_select_cars (session w)"
  let ?t1 = "snd (sql_insert_race tn (session w))"
  define j where "j = k - 5"
  have j: "k = 5 + j" "j \<le> 3"
    using k by (simp_all add: j_def)
  have f: "faults w = False # False # False # False # False
                       # (replicate j False @ True # False # fs)"
    using fault j by (simp add: replicate_add eval_nat_numeral)
  have ne: "?df \<noteq> []"
    using cars by (simp add: sql_select_cars_Nil)
  have "\<forall>r\<in>set ?df. CAR_TEAM_ID (fst r) \<noteq> None"
    using teams sql_select_cars_fst [of "session w"] by auto
  from calc_car_times_total [OF this] obtain rows where
    rows: "calc_car_times (fst track) us 0 ?df = Inr rows" "length rows = length ?df"
    by blast
  have "sort_key row_TIME_MIN rows \<noteq> []"
    using rows ne by (metis length_0_conv length_sort)
  then obtain first rest where srt: "sort_key row_TIME_MIN rows = first # rest"
    by (cases "sort_key row_TIME_MIN rows") auto
  let ?wa = "w\<lparr>faults := False # False # False # (replicate j False @ True # False # fs)\<rparr>"
  have page: "race_page tn fee prize us w = start_race tn fee prize us ?df ?wa"
    using f
    by (simp add: race_page_def track get_all_cars_def get_all_teams_def and_then_def
        fetch_all_ok)
  let ?wb = "w\<lparr>committed := ?t1, session := ?t1,
               faults := replicate j False @ True # False # fs\<rparr>"
  obtain rid where rid: "sql_max_race_id ?t1 = Some rid"
    by (cases "sql_max_race_id ?t1")
      (auto simp add: sql_max_race_id_def sql_insert_race_def max_of_None)
  have cr: "create_race tn ?wa = (Inr (Some rid), ?wb)"
    using create_race_ok [of ?wa "replicate j False @ True # False # fs" tn] flag rid
    by simp
  let ?body = "settlement_block (Some rid) (results_payload_of (first # rest))
                 (row_TEAM_ID first) fee prize"
  let ?we = "transaction_enter (length (transactions ?wb))
               (?wb\<lparr>transactions := transactions ?wb @ [False]\<rparr>)"
  have "IN_TRANSACTION ?we"
    "faults ?we = replicate j False @ True # False # fs"
    by (simp_all add: transaction_enter_def)
  from settlement_block_fails [OF this j(2)] obtain w2 where
    w2: "?body ?we = (Inl DatabaseError, w2)"
      "committed w2 = committed ?we" "faults w2 = False # fs"
      "transactions w2 = transactions ?we"
    by blast
  have nf: "\<not> driver_fails w2"
    using w2(3) by (simp add: driver_fails_def)
  have prev: "transactions w2 ! length (transactions ?wb) = IN_TRANSACTION ?wb"
    unfolding w2(4) entered_new_fields(5) by simp
  have "with_transaction (length (transactions ?wb)) ?body
          (?wb\<lparr>transactions := transactions ?wb @ [False]\<rparr>) =
              (Inl DatabaseError,
               (driver_called w2)\<lparr>session := committed w2,
                                   IN_TRANSACTION :=
                                     transactions w2 ! length (transactions ?wb)\<rparr>)"
    using w2(1) nf by (rule with_transaction_rolls_back)
  then have wt: "with_new_transaction ?body ?wb =
              (Inl DatabaseError,
               (driver_called w2)\<lparr>session := committed w2,
                                   IN_TRANSACTION := IN_TRANSACTION ?wb\<rparr>)"
    unfolding with_new_transaction_unfold prev .
  have "race_page tn fee prize us w =
          (Inl DatabaseError,
           (driver_called w2)\<lparr>session := committed w2, IN_TRANSACTION := IN_TRANSACTION ?wb\<rparr>)"
    unfolding page start_race_steps [OF ne track rows(1) srt cr]
    by (simp add: and_then_def wt)
  moreover have "committed w2 = ?t1"
    using w2(2) by (simp add: transaction_enter_def)
  ultimately show ?thesis
    using flag by (simp add: sql_insert_race_def)
qed

theorem settlement_failure_rolls_back_witness:
  "\<exists>w'. race_page ''Asphalt Sprint'' 1000 5000 fixed_draws
            (example_world [False, False, False, False, False, False, False, False,
                            True, False]) = (Inl DatabaseError, w')
         \<and> TEAMS (session w') = TEAMS example_tables
         \<and> CARS (session w') = CARS example_tables
         \<and> RACE_RESULTS (session w') = []
         \<and> RACES (session w') =
               [\<lparr>RACE_ID = 1, TRACK_NAME = ''Asphalt Sprint'', WINNER_TEAM_ID = None\<rparr>]
         \<and> committed w' = session w'
         \<and> \<not> IN_TRANSACTION w'"
proof -
  let ?w = "example_world [False, False, False, False, False, False, False, False,
                           True, False]"
  have 1: "map_of build_track_catalog ''Asphalt Sprint'' = Some (1, ''Fast, clean asphalt'')"
    by (simp add: build_track_catalog_def)
  have 2: "CARS (session ?w) \<noteq> []"
    by (simp add: example_world_def example_tables_def)
  have 3: "\<forall>c\<in>set (CARS (session ?w)). CAR_TEAM_ID c \<noteq> None"
    by (simp add: example_world_def example_tables_def)
  have 4: "\<not> IN_TRANSACTION ?w"
    by (simp add: example_world_def)
  have 5: "faults ?w = replicate 8 False @ True # False # []"
    by (simp add: example_world_def eval_nat_numeral)
  have 6: "(5::nat) \<le> 8" "(8::nat) \<le> 8"
    by simp_all
  show ?thesis
    using settlement_failure_rolls_back [OF 1 2 3 4 5 6, of 1000 5000 fixed_draws]
    by (simp add: example_world_def example_tables_def)
qed

section \<open>A settlement that succeeds\<close>

lemma no_faults_driver:
  assumes "faults w = []"
  shows "\<not> driver_fails w" and "driver_called w = w"
  using assms by (cases w, simp add: driver_fails_def driver_called_def)+

lemma cursor_execute_no_faults:
  "faults w = [] \<Longrightarrow>
     cursor_execute stmt w = (Inr (fst (stmt (session w))), w\<lparr>session := snd (stmt (session w))\<rparr>)"
  by (simp add: cursor_execute_def no_faults_driver split: prod.splits)

lemma execute_no_faults:
  assumes "faults w = []"
  shows "\<exists>w'. execute sql w = (Inr (fst (sql (session w))), w')
             \<and> faults w' = [] \<and> session w' = snd (sql (session w))
             \<and> IN_TRANSACTION w' = IN_TRANSACTION w"
  using assms
  by (simp add: execute_def and_then_def cursor_execute_no_faults conn_commit_def returns_def
      driver_fails_def driver_called_def)

lemma execute_many_no_faults:
  assumes "faults w = []"
  shows "\<exists>w'. execute_many sql ps w = (Inr (fst (run_many sql ps (session w))), w')
             \<and> faults w' = [] \<and> IN_TRANSACTION w' = IN_TRANSACTION w"
  using assms
  by (simp add: execute_many_def and_then_def cursor_execute_no_faults conn_commit_def
      returns_def driver_fails_def driver_called_def)

lemma settlement_block_no_faults:
  assumes "faults w = []"
  shows "\<exists>n w'. settlement_block (Some rid) payload win fee prize w = (Inr n, w')
               \<and> faults w' = []"
proof -
  from execute_many_no_faults [OF assms] obtain n1 w1 where
    1: "insert_race_results rid payload w = (Inr n1, w1)" "faults w1 = []"
    unfolding insert_race_results_def Let_def by blast
  from execute_no_faults [OF 1(2)] obtain n2 w2 where
    2: "set_race_winner rid win w1 = (Inr n2, w2)" "faults w2 = []"
    unfolding set_race_winner_def by blast
  from execute_no_faults [OF 2(2)] obtain n3 w3 where
    3: "pay_participation_fee_for_all_teams_with_cars fee w2 = (Inr n3, w3)" "faults w3 = []"
    unfolding pay_participation_fee_for_all_teams_with_cars_def by blast
  from execute_no_faults [OF 3(2)] obtain n4 w4 where
    4: "credit_winner_prize win prize w3 = (Inr n4, w4)" "faults w4 = []"
    unfolding credit_winner_prize_def by blast
  show ?thesis
    using 1 2 3 4 by (simp add: settlement_block_def py_int_def and_then_def)
qed

text \<open>
  The race page does settle when the track is in the catalog, there is a car, every car
  has a team and no driver call fails.
\<close>

lemma race_page_settles:
  assumes track: "map_of build_track_catalog tn = Some track"
    and cars: "CARS (session w) \<noteq> []"
    and teams: "\<forall>c\<in>set (CARS (session w)). CAR_TEAM_ID c \<noteq> None"
    and faults: "faults w = []"
  shows "\<exists>race_id win w'. race_page tn fee prize us w = (Inr (race_id, win), w')"
proof -
  let ?df = "sql_select_cars (session w)"
  let ?t1 = "snd (sql_insert_race tn (session w))"
  have ne: "?df \<noteq> []"
    using cars by (simp add: sql_select_cars_Nil)
  have "\<forall>r\<in>set ?df. CAR_TEAM_ID (fst r) \<noteq> None"
    using teams sql_select_cars_fst [of "session w"] by auto
  from calc_car_times_total [OF this] obtain rows where
    rows: "calc_car_times (fst track) us 0 ?df = Inr rows" "length rows = length ?df"
    by blast
  have "sort_key row_TIME_MIN rows \<noteq> []"
    using rows ne by (metis length_0_conv length_sort)
  then obtain first rest where srt: "sort_key row_TIME_MIN rows = first # rest"
    by (cases "sort_key row_TIME_MIN rows") auto
  have page: "race_page tn fee prize us w = start_race tn fee prize us ?df w"
    using faults
    by (simp add: race_page_def track get_all_cars_def get_all_teams_def and_then_def
        fetch_all_result no_faults_driver)
  from execute_no_faults [OF faults] obtain n0 w0 where
    ins: "execute (sql_insert_race tn) w = (Inr n0, w0)" "faults w0 = []"
      "session w0 = ?t1"
    by blast
  obtain rid where rid: "sql_max_race_id ?t1 = Some rid"
    by (cases "sql_max_race_id ?t1")
      (auto simp add: sql_max_race_id_def sql_insert_race_def max_of_None)
  have cr: "create_race tn w = (Inr (Some rid), w0)"
    using ins rid
    by (simp add: create_race_def and_then_def fetch_one_value_def cursor_execute_no_faults)
  let ?body = "settlement_block (Some rid) (results_payload_of (first # rest))
                 (row_TEAM_ID first) fee prize"
  let ?we = "transaction_enter (length (transactions w0))
               (w0\<lparr>transactions := transactions w0 @ [False]\<rparr>)"
  have "faults ?we = []"
    using ins(2) by (simp add: transaction_enter_def)
  from settlement_block_no_faults [OF this] obtain n w2 where
    blk: "?body ?we = (Inr n, w2)" "faults w2 = []"
    by blast
  have "with_transaction (length (transactions w0)) ?body
          (w0\<lparr>transactions := transactions w0 @ [False]\<rparr>) =
          (Inr n, (driver_called w2)\<lparr>committed := session w2,
                     IN_TRANSACTION := transactions w2 ! length (transactions w0)\<rparr>)"
    using blk(1) no_faults_driver(1) [OF blk(2)] by (rule with_transaction_commits)
  then show ?thesis
    unfolding page start_race_steps [OF ne track rows(1) srt cr] with_new_transaction_unfold
    by (simp add: and_then_def returns_def with_new_transaction_unfold)
qed

lemma settled_tables:
  assumes T: "T = snd (sql_credit_winner_prize prize win
               (snd (sql_pay_participation_fee fee
                 (snd (sql_set_race_winner win rid
                   (snd (run_many sql_insert_race_result ps
                           (snd (sql_insert_race tn t)))))))))"
  shows "RACE_RESULTS T = RACE_RESULTS t @ map result_of_param ps"
    and "CARS T = CARS t"
    and "RACES T = map (\<lambda>r. if RACE_ID r = rid then r\<lparr>WINNER_TEAM_ID := Some win\<rparr> else r)
                     (RACES t @ [\<lparr>RACE_ID = RACE_ID_SEQ t, TRACK_NAME = tn,
                                  WINNER_TEAM_ID = None\<rparr>])"
    and "TEAMS T =
           map (\<lambda>tm. if TEAM_ID tm = win then tm\<lparr>BUDGET := BUDGET tm + prize\<rparr> else tm)
             (map (\<lambda>tm. if Some (TEAM_ID tm) \<in> set (map CAR_TEAM_ID (CARS t))
                         then tm\<lparr>BUDGET := BUDGET tm - fee\<rparr> else tm) (TEAMS t))"
  unfolding T run_many_insert_results
  by (simp_all add: sql_credit_winner_prize_def sql_pay_participation_fee_def
      sql_set_race_winner_def sql_insert_race_def)

lemma calc_car_times_rows:
  "calc_car_times f us i df = Inr rows \<Longrightarrow>
     length rows = length df
     \<and> map row_CAR_ID rows = map (\<lambda>r. CAR_ID (fst r)) df
     \<and> map (\<lambda>r. Some (row_TEAM_ID r)) rows = map (\<lambda>r. CAR_TEAM_ID (fst r)) df"
proof (induction df arbitrary: i rows)
  case Nil
  then show ?case by simp
next
  case (Cons r df)
  from Cons.prems obtain t tid rows' where
    "CAR_TEAM_ID (fst r) = Some tid"
    "calc_car_times f us (Suc i) df = Inr rows'"
    "rows = \<lparr>row_CAR_ID = CAR_ID (fst r), row_TEAM_ID = tid,
              row_CAR_NAME = CAR_NAME (fst r),
              row_TEAM_NAME = (case snd r of None \<Rightarrow> ''None'' | Some n \<Rightarrow> n),
              row_TIME_MIN = t\<rparr> # rows'"
    by (auto simp add: py_int_def split: sum.splits option.splits)
  then show ?case
    using Cons.IH [of "Suc i" rows'] by simp
qed

lemma results_payload_of_map:
  "map result_of_param
     (map (\<lambda>(car_id, time_taken, position). (rid, car_id, time_taken, position))
        (results_payload_of rs)) =
   map (\<lambda>(pos, r). \<lparr>RR_RACE_ID = rid, RR_CAR_ID = row_CAR_ID r,
                       TIME_TAKEN = row_TIME_MIN r, POSITION = int pos\<rparr>)
     (enumerate 1 rs)"
  by (simp add: results_payload_of_def result_of_param_def split_def)

lemma map_snd_enumerate_fn:
  "map (\<lambda>(pos, r). g r) (enumerate n rs) = map g rs"
  by (induction rs arbitrary: n) simp_all

lemma map_fst_enumerate_fn:
  "map (\<lambda>(pos, r). h pos) (enumerate n rs) = map h [n..<n + length rs]"
proof -
  have "map h [n..<n + length rs] = map h (map fst (enumerate n rs))"
    by (simp only: map_fst_enumerate)
  also have "\<dots> = map (\<lambda>(pos, r). h pos) (enumerate n rs)"
    by (simp only: map_map comp_def split_def)
  finally show ?thesis by (rule sym)
qed

lemma filter_enumerate_snd:
  "map snd (filter (\<lambda>(pos, r). Q r) (enumerate n xs)) = filter Q xs"
  by (induction xs arbitrary: n) simp_all

lemma numbered_rows:
  fixes rs :: "timed_row list"
  assumes "new = map (\<lambda>(pos, r). \<lparr>RR_RACE_ID = rid, RR_CAR_ID = row_CAR_ID r,
                       TIME_TAKEN = row_TIME_MIN r, POSITION = int pos\<rparr>) (enumerate 1 rs)"
  shows "length new = length rs"
    and "map POSITION new = map int [1..<Suc (length new)]"
    and "map TIME_TAKEN new = map row_TIME_MIN rs"
    and "map (\<lambda>r. (RR_CAR_ID r, TIME_TAKEN r)) new = map (\<lambda>r. (row_CAR_ID r, row_TIME_MIN r)) rs"
    and "\<forall>r\<in>set new. RR_RACE_ID r = rid"
    and "map RR_CAR_ID (filter (\<lambda>r. TIME_TAKEN r = t) new)
         = map row_CAR_ID (filter (\<lambda>r. row_TIME_MIN r = t) rs)"
proof -
  show len: "length new = length rs"
    by (simp add: assms)
  have "map POSITION new = map (\<lambda>(pos, r). int pos) (enumerate 1 rs)"
    by (simp add: assms split_def)
  then show "map POSITION new = map int [1..<Suc (length new)]"
    by (simp only: map_fst_enumerate_fn len) simp
  have "map TIME_TAKEN new = map (\<lambda>(pos, r). row_TIME_MIN r) (enumerate 1 rs)"
    by (simp add: assms split_def)
  then show "map TIME_TAKEN new = map row_TIME_MIN rs"
    by (simp only: map_snd_enumerate_fn)
  have "map (\<lambda>r. (RR_CAR_ID r, TIME_TAKEN r)) new
        = map (\<lambda>(pos, r). (row_CAR_ID r, row_TIME_MIN r)) (enumerate 1 rs)"
    by (simp add: assms split_def)
  then show "map (\<lambda>r. (RR_CAR_ID r, TIME_TAKEN r)) new
             = map (\<lambda>r. (row_CAR_ID r, row_TIME_MIN r)) rs"
    by (simp only: map_snd_enumerate_fn)
  show "\<forall>r\<in>set new. RR_RACE_ID r = rid"
    by (auto simp add: assms)
  have "map RR_CAR_ID (filter (\<lambda>r. TIME_TAKEN r = t) new)
        = map row_CAR_ID (map snd (filter (\<lambda>(pos, r). row_TIME_MIN r = t) (enumerate 1 rs)))"
    by (simp add: assms filter_map comp_def split_def)
  then show "map RR_CAR_ID (filter (\<lambda>r. TIME_TAKEN r = t) new)
         = map row_CAR_ID (filter (\<lambda>r. row_TIME_MIN r = t) rs)"
    by (simp only: filter_enumerate_snd)
qed

lemma positions_set:
  "set (map int [1..<Suc n]) = {1..int n}"
proof -
  have "int ` {1..<Suc n} = {1..int n}"
  proof (rule set_eqI)
    fix x :: int
    show "x \<in> int ` {1..<Suc n} \<longleftrightarrow> x \<in> {1..int n}"
    proof
      assume "x \<in> int ` {1..<Suc n}"
      then show "x \<in> {1..int n}" by auto
    next
      assume x: "x \<in> {1..int n}"
      then have "x = int (nat x)" "nat x \<in> {1..<Suc n}" by auto
      then show "x \<in> int ` {1..<Suc n}" by (rule image_eqI)
    qed
  qed
  then show ?thesis by (simp only: set_map set_upt)
qed

lemma positions_distinct: "distinct (map int [1..<Suc n])"
  by (simp add: distinct_map inj_on_def)

lemma example_race:
  "race_page ''Asphalt Sprint'' 1000 5000 fixed_draws (example_world [])
     = (Inr (Some 1, 1), example_settled_world)"
  by (simp add: page_defs io_defs Let_def example_settled_world_def example_settled_tables_def)

lemma example_second_race:
  "race_page ''Desert Loop'' 1000 5000 fixed_draws example_settled_world
     = (Inr (Some 2, 1),
        snd (race_page ''Desert Loop'' 1000 5000 fixed_draws example_settled_world))"
proof -
  have "fst (race_page ''Desert Loop'' 1000 5000 fixed_draws example_settled_world)
          = Inr (Some 2, 1)"
    by (simp add: page_defs io_defs Let_def example_settled_world_def
        example_settled_tables_def)
  then show ?thesis
    by (simp add: prod_eq_iff)
qed

lemma race_page_settled:
  assumes "race_page tn fee prize us w = (Inr (race_id, win), w')"
  shows "\<exists>track rows first rest rid.
           map_of build_track_catalog tn = Some track
         \<and> calc_car_times (fst track) us 0 (sql_select_cars (session w)) = Inr rows
         \<and> sort_key row_TIME_MIN rows = first # rest
         \<and> win = row_TEAM_ID first
         \<and> race_id = Some rid
         \<and> sql_max_race_id (snd (sql_insert_race tn (session w))) = Some rid
         \<and> RACE_RESULTS (session w') =
             RACE_RESULTS (session w) @
               map (\<lambda>(pos, r). \<lparr>RR_RACE_ID = rid, RR_CAR_ID = row_CAR_ID r,
                                  TIME_TAKEN = row_TIME_MIN r, POSITION = int pos\<rparr>)
                 (enumerate 1 (first # rest))
         \<and> CARS (session w') = CARS (session w)
         \<and> RACES (session w') =
             map (\<lambda>r. if RACE_ID r = rid then r\<lparr>WINNER_TEAM_ID := Some win\<rparr> else r)
               (RACES (session w) @ [\<lparr>RACE_ID = RACE_ID_SEQ (session w), TRACK_NAME = tn,
                                       WINNER_TEAM_ID = None\<rparr>])
         \<and> TEAMS (session w') =
             map (\<lambda>tm. if TEAM_ID tm = win then tm\<lparr>BUDGET := BUDGET tm + prize\<rparr> else tm)
               (map (\<lambda>tm. if Some (TEAM_ID tm) \<in> set (map CAR_TEAM_ID (CARS (session w)))
                           then tm\<lparr>BUDGET := BUDGET tm - fee\<rparr> else tm)
                  (TEAMS (session w)))
         \<and> committed w' = session w'
         \<and> IN_TRANSACTION w' = IN_TRANSACTION w"
proof -
  from race_page_Inr [OF assms] obtain w0 where
    sr: "start_race tn fee prize us (sql_select_cars (session w)) w0 = (Inr (race_id, win), w')"
    and w0: "session w0 = session w" "IN_TRANSACTION w0 = IN_TRANSACTION w"
    by blast
  from start_race_Inr [OF sr] obtain track rows first rest rid where
    a: "map_of build_track_catalog tn = Some track"
      "calc_car_times (fst track) us 0 (sql_select_cars (session w)) = Inr rows"
      "sort_key row_TIME_MIN rows = first # rest"
      "win = row_TEAM_ID first" "race_id = Some rid"
      "sql_max_race_id (snd (sql_insert_race tn (session w0))) = Some rid" and
    T: "session w' =
             snd (sql_credit_winner_prize prize win
               (snd (sql_pay_participation_fee fee
                 (snd (sql_set_race_winner win rid
                   (snd (run_many sql_insert_race_result
                           (map (\<lambda>(car_id, time_taken, position).
                                   (rid, car_id, time_taken, position))
                              (results_payload_of (first # rest)))
                           (snd (sql_insert_race tn (session w0))))))))))" and
    c: "committed w' = session w'" "IN_TRANSACTION w' = IN_TRANSACTION w0"
    by blast
  note st = settled_tables [OF T]
  show ?thesis
    using a c w0 st(2,3,4) st(1) [unfolded results_payload_of_map]
    by (intro exI [of _ track] exI [of _ rows] exI [of _ first] exI [of _ rest] exI [of _ rid])
      simp
qed

text \<open>
  C4. A settlement that succeeds appends to the race results exactly one row per car of
  the roster (the roster is not empty, since the empty one stops the page), all for the
  new race. In the order of insertion their positions are 1, 2, ..., N, so the positions
  are distinct and form the set from 1 to N; their times ascend; and the cars and times
  are those of the computed rows sorted by time. The sort is stable: for every time
  \<open>t\<close>, the cars that finished in \<open>t\<close> appear in the results in the order they have
  in the roster, so the first-seen car of a tie has the lower position.
\<close>

theorem settlement_results:
  assumes "race_page tn fee prize us w = (Inr (race_id, win), w')"
  shows "\<exists>track rows new.
           map_of build_track_catalog tn = Some track
         \<and> calc_car_times (fst track) us 0 (sql_select_cars (session w)) = Inr rows
         \<and> map row_CAR_ID rows = map (\<lambda>r. CAR_ID (fst r)) (sql_select_cars (session w))
         \<and> RACE_RESULTS (session w') = RACE_RESULTS (session w) @ new
         \<and> committed w' = session w'
         \<and> new \<noteq> []
         \<and> length new = length (sql_select_cars (session w))
         \<and> map POSITION new = map int [1..<Suc (length new)]
         \<and> distinct (map POSITION new)
         \<and> set (map POSITION new) = {1..int (length new)}
         \<and> (\<forall>r\<in>set new. Some (RR_RACE_ID r) = race_id)
         \<and> sorted (map TIME_TAKEN new)
         \<and> map (\<lambda>r. (RR_CAR_ID r, TIME_TAKEN r)) new =
             map (\<lambda>r. (row_CAR_ID r, row_TIME_MIN r)) (sort_key row_TIME_MIN rows)
         \<and> (\<forall>t. map RR_CAR_ID (filter (\<lambda>r. TIME_TAKEN r = t) new) =
                  map row_CAR_ID (filter (\<lambda>r. row_TIME_MIN r = t) rows))"
proof -
  from race_page_settled [OF assms] obtain track rows first rest rid where
    a: "map_of build_track_catalog tn = Some track"
      "calc_car_times (fst track) us 0 (sql_select_cars (session w)) = Inr rows" and
    srt: "sort_key row_TIME_MIN rows = first # rest" and
    rid: "race_id = Some rid" and
    rr: "RACE_RESULTS (session w') =
             RACE_RESULTS (session w) @
               map (\<lambda>(pos, r). \<lparr>RR_RACE_ID = rid, RR_CAR_ID = row_CAR_ID r,
                                  TIME_TAKEN = row_TIME_MIN r, POSITION = int pos\<rparr>)
                 (enumerate 1 (first # rest))" and
    c: "committed w' = session w'"
    by blast
  define new where "new = map (\<lambda>(pos, r). \<lparr>RR_RACE_ID = rid, RR_CAR_ID = row_CAR_ID r,
                                  TIME_TAKEN = row_TIME_MIN r, POSITION = int pos\<rparr>)
                 (enumerate 1 (sort_key row_TIME_MIN rows))"
  note n = numbered_rows [OF new_def]
  note cr = calc_car_times_rows [OF a(2)]
  have len: "length new = length (sql_select_cars (session w))"
    using n(1) cr by simp
  have ne: "new \<noteq> []"
    using n(1) srt by auto
  have pos: "map POSITION new = map int [1..<Suc (length new)]"
    by (rule n(2))
  have dist: "distinct (map POSITION new)"
    unfolding pos by (rule positions_distinct)
  have pset: "set (map POSITION new) = {1..int (length new)}"
    unfolding pos by (simp only: positions_set length_map length_upt diff_Suc_1)
  have srtd: "sorted (map TIME_TAKEN new)"
    unfolding n(3) by (rule sorted_sort_key)
  have stable: "\<forall>t. map RR_CAR_ID (filter (\<lambda>r. TIME_TAKEN r = t) new) =
                  map row_CAR_ID (filter (\<lambda>r. row_TIME_MIN r = t) rows)"
    using n(6) by (simp add: sort_key_stable)
  have race: "\<forall>r\<in>set new. Some (RR_RACE_ID r) = race_id"
    using n(5) rid by simp
  have app: "RACE_RESULTS (session w') = RACE_RESULTS (session w) @ new"
    using rr srt by (simp add: new_def)
  show ?thesis
    using a cr app c ne len pos dist pset race srtd n(4) stable
    by (intro exI [of _ track] exI [of _ rows] exI [of _ new]) simp
qed

theorem settlement_results_witness:
  "\<exists>track rows new.
      map_of build_track_catalog ''Asphalt Sprint'' = Some track
    \<and> calc_car_times (fst track) fixed_draws 0 (sql_select_cars (session (example_world [])))
        = Inr rows
    \<and> map row_CAR_ID rows
        = map (\<lambda>r. CAR_ID (fst r)) (sql_select_cars (session (example_world [])))
    \<and> RACE_RESULTS (session example_settled_world)
        = RACE_RESULTS (session (example_world [])) @ new
    \<and> committed example_settled_world = session example_settled_world
    \<and> new \<noteq> []
    \<and> length new = length (sql_select_cars (session (example_world [])))
    \<and> map POSITION new = map int [1..<Suc (length new)]
    \<and> distinct (map POSITION new)
    \<and> set (map POSITION new) = {1..int (length new)}
    \<and> (\<forall>r\<in>set new. Some (RR_RACE_ID r) = Some 1)
    \<and> sorted (map TIME_TAKEN new)
    \<and> map (\<lambda>r. (RR_CAR_ID r, TIME_TAKEN r)) new =
        map (\<lambda>r. (row_CAR_ID r, row_TIME_MIN r)) (sort_key row_TIME_MIN rows)
    \<and> (\<forall>t. map RR_CAR_ID (filter (\<lambda>r. TIME_TAKEN r = t) new) =
             map row_CAR_ID (filter (\<lambda>r. row_TIME_MIN r = t) rows))"
  by (rule settlement_results [OF example_race])

lemma max_of_append_last:
  "\<forall>y\<in>set xs. y < x \<Longrightarrow> max_of (xs @ [x]) = Some x"
  by (induction xs) (auto simp add: max_def)

lemma calc_car_times_origin:
  "calc_car_times f us i df = Inr rows \<Longrightarrow> row \<in> set rows \<Longrightarrow>
     \<exists>r\<in>set df. CAR_ID (fst r) = row_CAR_ID row \<and> CAR_TEAM_ID (fst r) = Some (row_TEAM_ID row)"
proof (induction df arbitrary: i rows)
  case Nil
  then show ?case by simp
next
  case (Cons r df)
  from Cons.prems(1) obtain t tid rows' where
    tid: "CAR_TEAM_ID (fst r) = Some tid" and
    rec: "calc_car_times f us (Suc i) df = Inr rows'" and
    rows: "rows = \<lparr>row_CAR_ID = CAR_ID (fst r), row_TEAM_ID = tid,
              row_CAR_NAME = CAR_NAME (fst r),
              row_TEAM_NAME = (case snd r of None \<Rightarrow> ''None'' | Some n \<Rightarrow> n),
              row_TIME_MIN = t\<rparr> # rows'"
    by (auto simp add: py_int_def split: sum.splits option.splits)
  show ?case
  proof (cases "row \<in> set rows'")
    case True
    from Cons.IH [OF rec True] show ?thesis by auto
  next
    case False
    then have "row = \<lparr>row_CAR_ID = CAR_ID (fst r), row_TEAM_ID = tid,
              row_CAR_NAME = CAR_NAME (fst r),
              row_TEAM_NAME = (case snd r of None \<Rightarrow> ''None'' | Some n \<Rightarrow> n),
              row_TIME_MIN = t\<rparr>"
      using Cons.prems(2) rows by simp
    then show ?thesis using tid by simp
  qed
qed

lemma first_position_only:
  fixes mk :: "nat \<Rightarrow> 'a \<Rightarrow> result_row"
  assumes "\<And>pos r. POSITION (mk pos r) = int pos"
  shows "filter (\<lambda>r. POSITION r = 1) (map (\<lambda>(pos, r). mk pos r) (enumerate 1 (x # xs)))
         = [mk 1 x]"
proof -
  have "\<forall>p\<in>set (enumerate (Suc 1) xs). \<not> POSITION (case p of (pos, r) \<Rightarrow> mk pos r) = 1"
    by (auto simp add: assms in_set_enumerate_eq)
  then have "filter (\<lambda>r. POSITION r = 1) (map (\<lambda>(pos, r). mk pos r) (enumerate (Suc 1) xs)) = []"
    by (simp add: filter_empty_conv)
  then show ?thesis
    by (simp add: assms)
qed

text \<open>
  C5. After a settlement that succeeds, the race created for it records as winner the
  team that owns the car in position 1: the races table is the old one followed by the
  new race with that winner, exactly one of the new result rows has position 1, its
  car is a car of the database, and every car with that identifier belongs to the
  winning team. The database gives race identifiers in increasing order (every
  existing race identifier is below the next one to be given), and car identifiers are
  unique.
\<close>

theorem winner_is_team_of_first_car:
  assumes ok: "race_page tn fee prize us w = (Inr (race_id, win), w')"
    and ids: "\<forall>r\<in>set (RACES (session w)). RACE_ID r < RACE_ID_SEQ (session w)"
    and cars: "distinct (map CAR_ID (CARS (session w)))"
  shows "\<exists>rid new first_result.
           race_id = Some rid
         \<and> RACES (session w') =
             RACES (session w) @
               [\<lparr>RACE_ID = rid, TRACK_NAME = tn, WINNER_TEAM_ID = Some win\<rparr>]
         \<and> RACE_RESULTS (session w') = RACE_RESULTS (session w) @ new
         \<and> filter (\<lambda>r. POSITION r = 1) new = [first_result]
         \<and> RR_RACE_ID first_result = rid
         \<and> (\<exists>c\<in>set (CARS (session w')). CAR_ID c = RR_CAR_ID first_result)
         \<and> (\<forall>c\<in>set (CARS (session w')).
               CAR_ID c = RR_CAR_ID first_result \<longrightarrow> CAR_TEAM_ID c = Some win)"
proof -
  let ?t = "session w"
  from race_page_settled [OF ok] obtain track rows first rest rid where
    all: "map_of build_track_catalog tn = Some track
         \<and> calc_car_times (fst track) us 0 (sql_select_cars ?t) = Inr rows
         \<and> sort_key row_TIME_MIN rows = first # rest
         \<and> win = row_TEAM_ID first
         \<and> race_id = Some rid
         \<and> sql_max_race_id (snd (sql_insert_race tn ?t)) = Some rid
         \<and> RACE_RESULTS (session w') =
             RACE_RESULTS ?t @
               map (\<lambda>(pos, r). \<lparr>RR_RACE_ID = rid, RR_CAR_ID = row_CAR_ID r,
                                  TIME_TAKEN = row_TIME_MIN r, POSITION = int pos\<rparr>)
                 (enumerate 1 (first # rest))
         \<and> CARS (session w') = CARS ?t
         \<and> RACES (session w') =
             map (\<lambda>r. if RACE_ID r = rid then r\<lparr>WINNER_TEAM_ID := Some win\<rparr> else r)
               (RACES ?t @ [\<lparr>RACE_ID = RACE_ID_SEQ ?t, TRACK_NAME = tn,
                                       WINNER_TEAM_ID = None\<rparr>])
         \<and> TEAMS (session w') =
             map (\<lambda>tm. if TEAM_ID tm = win then tm\<lparr>BUDGET := BUDGET tm + prize\<rparr> else tm)
               (map (\<lambda>tm. if Some (TEAM_ID tm) \<in> set (map CAR_TEAM_ID (CARS ?t))
                           then tm\<lparr>BUDGET := BUDGET tm - fee\<rparr> else tm)
                  (TEAMS ?t))
         \<and> committed w' = session w'
         \<and> IN_TRANSACTION w' = IN_TRANSACTION w"
    by (elim exE) (rule that)
  have rows: "calc_car_times (fst track) us 0 (sql_select_cars ?t) = Inr rows"
    and srt: "sort_key row_TIME_MIN rows = first # rest"
    and win: "win = row_TEAM_ID first"
    and rid: "race_id = Some rid"
    and mx: "sql_max_race_id (snd (sql_insert_race tn ?t)) = Some rid"
    and rr: "RACE_RESULTS (session w') =
             RACE_RESULTS ?t @
               map (\<lambda>(pos, r). \<lparr>RR_RACE_ID = rid, RR_CAR_ID = row_CAR_ID r,
                                  TIME_TAKEN = row_TIME_MIN r, POSITION = int pos\<rparr>)
                 (enumerate 1 (first # rest))"
    and cs: "CARS (session w') = CARS ?t"
    and rc: "RACES (session w') =
             map (\<lambda>r. if RACE_ID r = rid then r\<lparr>WINNER_TEAM_ID := Some win\<rparr> else r)
               (RACES ?t @ [\<lparr>RACE_ID = RACE_ID_SEQ ?t, TRACK_NAME = tn,
                                       WINNER_TEAM_ID = None\<rparr>])"
    using all by simp_all
  have "sql_max_race_id (snd (sql_insert_race tn ?t)) = Some (RACE_ID_SEQ ?t)"
    using ids by (simp add: sql_max_race_id_def sql_insert_race_def max_of_append_last)
  then have seq: "rid = RACE_ID_SEQ ?t"
    using mx by simp
  have old: "map (\<lambda>r. if RACE_ID r = rid then r\<lparr>WINNER_TEAM_ID := Some win\<rparr> else r) (RACES ?t)
             = RACES ?t"
    using ids seq by (intro map_idI) auto
  have races: "RACES (session w') =
             RACES ?t @ [\<lparr>RACE_ID = rid, TRACK_NAME = tn, WINNER_TEAM_ID = Some win\<rparr>]"
    unfolding rc map_append old using seq by simp
  define new where "new = map (\<lambda>(pos, r). \<lparr>RR_RACE_ID = rid, RR_CAR_ID = row_CAR_ID r,
                                  TIME_TAKEN = row_TIME_MIN r, POSITION = int pos\<rparr>)
                 (enumerate 1 (first # rest))"
  define first_result where "first_result = \<lparr>RR_RACE_ID = rid, RR_CAR_ID = row_CAR_ID first,
                                  TIME_TAKEN = row_TIME_MIN first, POSITION = int 1\<rparr>"
  have one: "filter (\<lambda>r. POSITION r = 1) new = [first_result]"
    unfolding new_def first_result_def
    by (rule first_position_only) simp
  have "first \<in> set rows"
    using srt by (metis list.set_intros(1) set_sort)
  from calc_car_times_origin [OF rows this] obtain r where
    r: "r \<in> set (sql_select_cars ?t)" "CAR_ID (fst r) = row_CAR_ID first"
      "CAR_TEAM_ID (fst r) = Some win"
    using win by blast
  have car: "fst r \<in> set (CARS ?t)"
    using r(1) sql_select_cars_fst [of ?t] by (metis image_eqI)
  have ex: "\<exists>c\<in>set (CARS (session w')). CAR_ID c = RR_CAR_ID first_result"
    using car r(2) cs by (auto simp add: first_result_def)
  have all: "\<forall>c\<in>set (CARS (session w')).
               CAR_ID c = RR_CAR_ID first_result \<longrightarrow> CAR_TEAM_ID c = Some win"
  proof (intro ballI impI)
    fix c
    assume c: "c \<in> set (CARS (session w'))" "CAR_ID c = RR_CAR_ID first_result"
    have "inj_on CAR_ID (set (CARS ?t))"
      using cars by (simp add: distinct_map)
    moreover have "CAR_ID c = CAR_ID (fst r)"
      using c(2) r(2) by (simp add: first_result_def)
    ultimately have "c = fst r"
      using c(1) car cs by (simp add: inj_on_eq_iff)
    then show "CAR_TEAM_ID c = Some win"
      using r(3) by simp
  qed
  have app: "RACE_RESULTS (session w') = RACE_RESULTS ?t @ new"
    using rr by (simp add: new_def)
  have frid: "RR_RACE_ID first_result = rid"
    by (simp add: first_result_def)
  show ?thesis
    using rid races app one frid ex all
    by (intro exI [of _ rid] exI [of _ new] exI [of _ first_result]) simp
qed

theorem winner_is_team_of_first_car_witness:
  "\<exists>rid new first_result.
      Some 2 = Some rid
    \<and> RACES (session (snd (race_page ''Desert Loop'' 1000 5000 fixed_draws
                               example_settled_world))) =
        RACES (session example_settled_world) @
          [\<lparr>RACE_ID = rid, TRACK_NAME = ''Desert Loop'', WINNER_TEAM_ID = Some 1\<rparr>]
    \<and> RACE_RESULTS (session (snd (race_page ''Desert Loop'' 1000 5000 fixed_draws
                                      example_settled_world)))
        = RACE_RESULTS (session example_settled_world) @ new
    \<and> filter (\<lambda>r. POSITION r = 1) new = [first_result]
    \<and> RR_RACE_ID first_result = rid
    \<and> (\<exists>c\<in>set (CARS (session (snd (race_page ''Desert Loop'' 1000 5000 fixed_draws
                                          example_settled_world)))).
          CAR_ID c = RR_CAR_ID first_result)
    \<and> (\<forall>c\<in>set (CARS (session (snd (race_page ''Desert Loop'' 1000 5000 fixed_draws
                                          example_settled_world)))).
          CAR_ID c = RR_CAR_ID first_result \<longrightarrow> CAR_TEAM_ID c = Some 1)"
proof -
  have ids: "\<forall>r\<in>set (RACES (session example_settled_world)).
               RACE_ID r < RACE_ID_SEQ (session example_settled_world)"
    by (simp add: example_settled_world_def example_settled_tables_def)
  have cars: "distinct (map CAR_ID (CARS (session example_settled_world)))"
    by (simp add: example_settled_world_def example_settled_tables_def)
  show ?thesis
    by (rule winner_is_team_of_first_car [OF example_second_race ids cars])
qed

lemma sum_list_if_const:
  fixes c :: real
  shows "sum_list (map (\<lambda>x. if P x then c else 0) xs) = c * real (length (filter P xs))"
  by (induction xs) (simp_all add: algebra_simps)

lemma length_filter_keys:
  assumes "distinct (map f xs)" "S \<subseteq> f ` set xs"
  shows "length (filter (\<lambda>x. f x \<in> S) xs) = card S"
proof -
  have inj: "inj_on f (set xs)" and d: "distinct xs"
    using assms(1) by (simp_all add: distinct_map)
  have "length (filter (\<lambda>x. f x \<in> S) xs) = card (set (filter (\<lambda>x. f x \<in> S) xs))"
    by (rule distinct_card [symmetric]) (simp add: d)
  also have "\<dots> = card (f ` set (filter (\<lambda>x. f x \<in> S) xs))"
    by (rule card_image [symmetric]) (rule inj_on_subset [OF inj], auto)
  also have "f ` set (filter (\<lambda>x. f x \<in> S) xs) = S"
    using assms(2) by auto
  finally show ?thesis .
qed

lemma sum_list_zip_map_same:
  fixes F :: "'a \<Rightarrow> 'a \<Rightarrow> real"
  shows "sum_list (map (\<lambda>(a, b). F a b) (zip (map g xs) xs)) = sum_list (map (\<lambda>x. F (g x) x) xs)"
  by (induction xs) simp_all

text \<open>
  C3. After a settlement that succeeds, the teams are the same as before, in the same
  order, and the sum over all teams of the budget after less the budget before is the
  prize less the fee times the number of distinct teams that own a car of the roster.
  Team identifiers are unique and every owning team of a car is a team of the
  database.
\<close>

theorem settlement_budget_sum:
  assumes ok: "race_page tn fee prize us w = (Inr (race_id, win), w')"
    and teams: "distinct (map TEAM_ID (TEAMS (session w)))"
    and owners: "\<forall>c\<in>set (CARS (session w)). \<forall>tid. CAR_TEAM_ID c = Some tid \<longrightarrow>
                   tid \<in> TEAM_ID ` set (TEAMS (session w))"
  shows "map TEAM_ID (TEAMS (session w')) = map TEAM_ID (TEAMS (session w))
       \<and> sum_list (map (\<lambda>(after, before). BUDGET after - BUDGET before)
                     (zip (TEAMS (session w')) (TEAMS (session w))))
         = prize - fee * real (card {tid. \<exists>r\<in>set (sql_select_cars (session w)).
                                            CAR_TEAM_ID (fst r) = Some tid})"
proof -
  let ?t = "session w"
  let ?S = "{tid. \<exists>r\<in>set (sql_select_cars ?t). CAR_TEAM_ID (fst r) = Some tid}"
  let ?pay = "\<lambda>tm. if Some (TEAM_ID tm) \<in> set (map CAR_TEAM_ID (CARS ?t))
                    then tm\<lparr>BUDGET := BUDGET tm - fee\<rparr> else tm"
  let ?credit = "\<lambda>tm. if TEAM_ID tm = win then tm\<lparr>BUDGET := BUDGET tm + prize\<rparr> else tm"
  from race_page_settled [OF ok] obtain track rows first rest rid where
    all: "map_of build_track_catalog tn = Some track
         \<and> calc_car_times (fst track) us 0 (sql_select_cars ?t) = Inr rows
         \<and> sort_key row_TIME_MIN rows = first # rest
         \<and> win = row_TEAM_ID first
         \<and> race_id = Some rid
         \<and> sql_max_race_id (snd (sql_insert_race tn ?t)) = Some rid
         \<and> RACE_RESULTS (session w') =
             RACE_RESULTS ?t @
               map (\<lambda>(pos, r). \<lparr>RR_RACE_ID = rid, RR_CAR_ID = row_CAR_ID r,
                                  TIME_TAKEN = row_TIME_MIN r, POSITION = int pos\<rparr>)
                 (enumerate 1 (first # rest))
         \<and> CARS (session w') = CARS ?t
         \<and> RACES (session w') =
             map (\<lambda>r. if RACE_ID r = rid then r\<lparr>WINNER_TEAM_ID := Some win\<rparr> else r)
               (RACES ?t @ [\<lparr>RACE_ID = RACE_ID_SEQ ?t, TRACK_NAME = tn,
                                       WINNER_TEAM_ID = None\<rparr>])
         \<and> TEAMS (session w') = map ?credit (map ?pay (TEAMS ?t))
         \<and> committed w' = session w'
         \<and> IN_TRANSACTION w' = IN_TRANSACTION w"
    by (elim exE) (rule that)
  have rows: "calc_car_times (fst track) us 0 (sql_select_cars ?t) = Inr rows"
    and srt: "sort_key row_TIME_MIN rows = first # rest"
    and win: "win = row_TEAM_ID first"
    and tm: "TEAMS (session w') = map ?credit (map ?pay (TEAMS ?t))"
    using all by simp_all
  have "?S = {tid. Some tid \<in> CAR_TEAM_ID ` fst ` set (sql_select_cars ?t)}"
    by force
  then have S: "?S = {tid. Some tid \<in> CAR_TEAM_ID ` set (CARS ?t)}"
    by (simp only: sql_select_cars_fst)
  have sub: "?S \<subseteq> TEAM_ID ` set (TEAMS ?t)"
    unfolding S using owners by auto
  have "first \<in> set rows"
    using srt by (metis list.set_intros(1) set_sort)
  from calc_car_times_origin [OF rows this] have winS: "win \<in> ?S"
    using win by auto
  define g :: "team_row \<Rightarrow> team_row" where "g = (\<lambda>x. ?credit (?pay x))"
  have tm': "TEAMS (session w') = map g (TEAMS ?t)"
    unfolding tm g_def by simp
  have ids: "map TEAM_ID (TEAMS (session w')) = map TEAM_ID (TEAMS ?t)"
    unfolding tm' by (simp add: g_def)
  have delta: "BUDGET (g x) - BUDGET x =
                 (if TEAM_ID x \<in> {win} then prize else 0)
                 - (if TEAM_ID x \<in> ?S then fee else 0)" for x
    unfolding S g_def by simp
  have "sum_list (map (\<lambda>(after, before). BUDGET after - BUDGET before)
                     (zip (TEAMS (session w')) (TEAMS ?t)))
        = sum_list (map (\<lambda>x. BUDGET (g x) - BUDGET x) (TEAMS ?t))"
    unfolding tm' by (rule sum_list_zip_map_same)
  also have "\<dots> = sum_list (map (\<lambda>x. if TEAM_ID x \<in> {win} then prize else 0) (TEAMS ?t))
                  - sum_list (map (\<lambda>x. if TEAM_ID x \<in> ?S then fee else 0) (TEAMS ?t))"
    unfolding delta by (simp only: sum_list_subtractf)
  also have "\<dots> = prize * real (length (filter (\<lambda>x. TEAM_ID x \<in> {win}) (TEAMS ?t)))
                  - fee * real (length (filter (\<lambda>x. TEAM_ID x \<in> ?S) (TEAMS ?t)))"
    by (simp only: sum_list_if_const)
  also have "length (filter (\<lambda>x. TEAM_ID x \<in> {win}) (TEAMS ?t)) = card {win}"
    using teams winS sub by (intro length_filter_keys) auto
  also have "length (filter (\<lambda>x. TEAM_ID x \<in> ?S) (TEAMS ?t)) = card ?S"
    using teams sub by (rule length_filter_keys)
  finally have "sum_list (map (\<lambda>(after, before). BUDGET after - BUDGET before)
                     (zip (TEAMS (session w')) (TEAMS ?t)))
        = prize - fee * real (card ?S)"
    by simp
  with ids show ?thesis by simp
qed

theorem settlement_budget_sum_witness:
  "map TEAM_ID (TEAMS (session example_settled_world))
     = map TEAM_ID (TEAMS (session (example_world [])))
   \<and> sum_list (map (\<lambda>(after, before). BUDGET after - BUDGET before)
                 (zip (TEAMS (session example_settled_world))
                      (TEAMS (session (example_world [])))))
     = 5000 - 1000 * real (card {tid. \<exists>r\<in>set (sql_select_cars (session (example_world []))).
                                        CAR_TEAM_ID (fst r) = Some tid})"
proof -
  have teams: "distinct (map TEAM_ID (TEAMS (session (example_world []))))"
    by (simp add: example_world_def example_tables_def)
  have owners: "\<forall>c\<in>set (CARS (session (example_world []))). \<forall>tid.
                  CAR_TEAM_ID c = Some tid \<longrightarrow>
                  tid \<in> TEAM_ID ` set (TEAMS (session (example_world [])))"
    by (simp add: example_world_def example_tables_def)
  show ?thesis
    by (rule settlement_budget_sum [OF example_race teams owners])
qed

end
